theory Spec2Isabelle
  imports Complex_Main
begin

section \<open>Errors and sequencing\<close>

text \<open>
  Every exception the modelled Python code can raise is a value of \<open>error\<close>; a
  fallible computation returns \<open>error + 'a\<close> with \<open>Inl\<close> for the raised exception.
  \<open>NotReal\<close> is not a Python exception: it marks the places where the source goes on
  with an IEEE infinity or NaN (or a complex number), which the real-valued model does not
  represent; the model stops there instead.
\<close>

datatype error =
    FileNotFoundError string
  | KeyError string
  | AttributeError string
  | UnboundLocalError string
  | ZeroDivisionError
  | AssertionError
  | IndexError
  | TypeError
  | ValueError
  | RuntimeError
  | NotReal

definition and_then :: "error + 'a \<Rightarrow> ('a \<Rightarrow> error + 'b) \<Rightarrow> error + 'b" where
  "and_then r f = (case r of Inl e \<Rightarrow> Inl e | Inr v \<Rightarrow> f v)"

section \<open>The model object and its constructor\<close>

text \<open>
  A phase is the dictionary \<open>dict(name=..., interval=...)\<close> of
  \<open>StyleGANv2ADAModel.__init__\<close>.
\<close>

record phase =
  name :: string
  interval :: int

text \<open>
  The loop of \<open>__init__\<close> over \<open>[('G', G_reg_interval), ('D', D_reg_interval)]\<close>;
  the accumulator is \<open>self.phases\<close>, extended with \<open>+=\<close>.
\<close>

fun build_phases :: "(string \<times> int option) list \<Rightarrow> phase list \<Rightarrow> phase list" where
  "build_phases [] phases = phases"
| "build_phases ((nm, reg_interval) # rest) phases =
     (case reg_interval of
        None \<Rightarrow> build_phases rest (phases @ [\<lparr>name = nm @ ''both'', interval = 1\<rparr>])
      | Some k \<Rightarrow>
          build_phases rest
            ((phases @ [\<lparr>name = nm @ ''main'', interval = 1\<rparr>])
               @ [\<lparr>name = nm @ ''reg'', interval = k\<rparr>]))"


text \<open>
  A network is opaque apart from its ordered parameter list and its ordered buffer list
  (\<open>parameters()\<close>, \<open>buffers()\<close>). A parameter or buffer tensor is represented by
  one real entry: \<open>lerp\<close> and \<open>copy_\<close> act on tensors elementwise. Python floats
  are modelled as real numbers throughout.
\<close>

record module =
  parameters :: "real list"
  buffers :: "real list"

text \<open>
  The keyword arguments of \<open>StyleGANv2ADAModel.__init__\<close>, each named \<open>kw_\<close> plus
  its Python name. \<open>kw_mapping_c_dim\<close>, \<open>kw_mapping_z_dim\<close> and
  \<open>kw_mapping_w_dim\<close> are the attributes \<open>mapping.c_dim\<close>, \<open>mapping.z_dim\<close>
  and \<open>mapping.w_dim\<close> of the mapping network passed in. The augmentation pipe is
  opaque apart from its strength tensor \<open>p\<close>: \<open>Some p\<close> is a pipe whose strength is
  \<open>p\<close>, \<open>None\<close> is Python's \<open>None\<close>.
\<close>

record kwargs =
  kw_synthesis :: module
  kw_synthesis_ema :: module
  kw_mapping :: module
  kw_mapping_c_dim :: int
  kw_mapping_z_dim :: int
  kw_mapping_w_dim :: int
  kw_mapping_ema :: module
  kw_discriminator :: "module option"
  kw_G_reg_interval :: "int option"
  kw_D_reg_interval :: "int option"
  kw_augment_pipe :: "real option"
  kw_style_mixing_prob :: real
  kw_r1_gamma :: real
  kw_pl_batch_shrink :: int
  kw_pl_decay :: real
  kw_pl_weight :: real
  kw_ema_kimg :: real
  kw_ema_rampup :: "real option"
  kw_augment_p :: real
  kw_ada_kimg :: real
  kw_ada_interval :: int
  kw_ada_target :: "real option"
  kw_adjust_p :: bool

text \<open>
  What the data prefetcher hands to \<open>setup_input\<close>: the list
  \<open>[phase_real_img, phase_real_c, phases_all_gen_c]\<close>. Only tensor shapes steer the
  control flow of \<open>train_iter\<close>, so an image batch is its number of rows
  (\<open>shape[0]\<close>) and a label tensor is its pair \<open>(shape[0], shape[1])\<close>.
\<close>

record batch =
  phase_real_img :: nat
  phase_real_c :: "nat \<times> nat"
  phases_all_gen_c :: "(nat \<times> nat) list"

text \<open>The attributes of a \<open>StyleGANv2ADAModel\<close> object that the training code uses.\<close>

record model =
  synthesis :: module
  synthesis_ema :: module
  mapping :: module
  mapping_ema :: module
  discriminator :: "module option"
  c_dim :: int
  z_dim :: int
  w_dim :: int
  phases :: "phase list"
  cur_nimg :: int
  batch_idx :: int
  augment_pipe :: "real option"
  style_mixing_prob :: real
  r1_gamma :: real
  pl_batch_shrink :: int
  pl_decay :: real
  pl_weight :: real
  pl_mean :: "real option"
  ema_kimg :: real
  ema_rampup :: "real option"
  augment_p :: real
  ada_kimg :: real
  ada_target :: "real option"
  ada_interval :: int
  adjust_p :: bool
  Loss_signs_real :: "real list list"
  align_grad :: bool
  is_distributed :: bool
  input :: "batch option"

text \<open>
  \<open>StyleGANv2ADAModel.__init__\<close>. An attribute assigned twice keeps the second
  value: \<open>self.style_mixing_prob = style_mixing_prob\<close> is followed by
  \<open>self.style_mixing_prob = -1.0\<close>, and \<open>self.align_grad = False\<close> by
  \<open>self.align_grad = True\<close>. \<open>self.input\<close> does not exist until
  \<open>setup_input\<close> is called.
\<close>

definition StyleGANv2ADAModel :: "kwargs \<Rightarrow> model" where
  "StyleGANv2ADAModel kw =
     \<lparr>synthesis = kw_synthesis kw,
      synthesis_ema = kw_synthesis_ema kw,
      mapping = kw_mapping kw,
      mapping_ema = kw_mapping_ema kw,
      discriminator = kw_discriminator kw,
      c_dim = kw_mapping_c_dim kw,
      z_dim = kw_mapping_z_dim kw,
      w_dim = kw_mapping_w_dim kw,
      phases = build_phases [(''G'', kw_G_reg_interval kw), (''D'', kw_D_reg_interval kw)] [],
      cur_nimg = 0,
      batch_idx = 0,
      augment_pipe = kw_augment_pipe kw,
      style_mixing_prob = - 1,
      r1_gamma = kw_r1_gamma kw,
      pl_batch_shrink = kw_pl_batch_shrink kw,
      pl_decay = kw_pl_decay kw,
      pl_weight = kw_pl_weight kw,
      pl_mean = None,
      ema_kimg = kw_ema_kimg kw,
      ema_rampup = kw_ema_rampup kw,
      augment_p = kw_augment_p kw,
      ada_kimg = kw_ada_kimg kw,
      ada_target = kw_ada_target kw,
      ada_interval = kw_ada_interval kw,
      adjust_p = kw_adjust_p kw,
      Loss_signs_real = [],
      align_grad = True,
      is_distributed = False,
      input = None\<rparr>"

definition setup_input :: "model \<Rightarrow> batch \<Rightarrow> model" where
  "setup_input m inp = m\<lparr>input := Some inp\<rparr>"

section \<open>Collaborators of a training iteration\<close>

text \<open>
  A reference archive (\<open>.npz\<close>) of the gradient-alignment code is a dictionary from
  keys to arrays; an array is represented by the size of its first dimension. The
  environment holds the files that \<open>np.load\<close> can open and whether a debugger trace
  function is installed (\<open>sys.gettrace()\<close>).
\<close>

type_synonym npz = "string \<rightharpoonup> nat"

record env =
  files :: "string \<rightharpoonup> npz"
  is_debug :: bool

text \<open>
  The results of the opaque computations (network forward and backward passes, optimizer
  steps, random draws), indexed by the phase name they are computed in:
  the scalar logged under a loss name, the signs of the real logits, the mean path
  length, and the live networks after the phase. \<open>rand_cutoff\<close> and
  \<open>rand_uniform\<close> are the two random draws of the style-mixing block.
\<close>

record opaque =
  loss_value :: "string \<Rightarrow> string \<Rightarrow> real"
  real_logits_sign :: "string \<Rightarrow> real list"
  pl_lengths_mean :: "string \<Rightarrow> real"
  mapping_after :: "string \<Rightarrow> module \<Rightarrow> module"
  synthesis_after :: "string \<Rightarrow> module \<Rightarrow> module"
  discriminator_after :: "string \<Rightarrow> module \<Rightarrow> module"
  rand_cutoff :: nat
  rand_uniform :: real

text \<open>
  The calls \<open>train_iter\<close> makes on its collaborators, in the order it makes them:
  \<open>optimizers[key].zero_grad\<close>, \<open>accumulate_gradients(phase, ..., sync, gain)\<close>
  and \<open>optimizers[key].step\<close>.
\<close>

datatype call = Zero_grad string | Accumulate string int bool | Step string

text \<open>A label argument: a tensor with so many rows, \<open>None\<close>, or the list \<open>[None]\<close>.\<close>

datatype label_arg = Label_rows nat | No_label | No_label_list

subsection \<open>Library functions\<close>

text \<open>\<open>'%.Nd' % x\<close>: the decimal digits of \<open>x\<close>, zero-padded to at least \<open>N\<close> digits.\<close>

definition digit :: "nat \<Rightarrow> char" where
  "digit d = ''0123456789'' ! d"

fun decimal :: "nat \<Rightarrow> string" where
  "decimal n = (if n < 10 then [digit n] else decimal (n div 10) @ [digit (n mod 10)])"

declare decimal.simps [simp del]

definition fmt_d :: "nat \<Rightarrow> int \<Rightarrow> string" where
  "fmt_d prec x =
     (let ds = decimal (nat \<bar>x\<bar>)
      in (if x < 0 then ''-'' else []) @ replicate (prec - length ds) CHR ''0'' @ ds)"

text \<open>
  \<open>torch.split(split_size)\<close> along dimension 0, as the row counts of the chunks: it
  refuses a zero split size on a non-empty tensor and always returns at least one chunk.
\<close>

definition split_sizes :: "nat \<Rightarrow> nat \<Rightarrow> error + nat list" where
  "split_sizes n split_size =
     (if split_size = 0 then (if n = 0 then Inr [0] else Inl RuntimeError)
      else if n = 0 then Inr [0]
      else Inr (replicate (n div split_size) split_size
                 @ (if n mod split_size = 0 then [] else [n mod split_size])))"

text \<open>\<open>torch.lerp(start, end, weight) = start + weight * (end - start)\<close>.\<close>

definition lerp :: "real \<Rightarrow> real \<Rightarrow> real \<Rightarrow> real" where
  "lerp start fin weight = start + weight * (fin - start)"

text \<open>
  Modelled from the spec: \<open>constant\<close> is imported from
  \<open>mmgan.models.generators.generator_styleganv2ada\<close>, which is not among the sources.
  The spec gives the new strength as \<open>max(0, augment_p + direction*magnitude)\<close>, so
  \<open>constant(0, device=...)\<close> is the tensor that holds the given value.
\<close>

definition constant_tensor :: "real \<Rightarrow> real" where
  "constant_tensor v = v"

text \<open>A list comprehension whose element expression may raise.\<close>

fun map_err :: "('a \<Rightarrow> error + 'b) \<Rightarrow> 'a list \<Rightarrow> error + 'b list" where
  "map_err f [] = Inr []"
| "map_err f (x # xs) =
     (case f x of Inl e \<Rightarrow> Inl e
      | Inr y \<Rightarrow> (case map_err f xs of Inl e \<Rightarrow> Inl e | Inr ys \<Rightarrow> Inr (y # ys)))"

subsection \<open>Reading the reference archive\<close>

definition npz_path :: "bool \<Rightarrow> int \<Rightarrow> int \<Rightarrow> string" where
  "npz_path dbg b rank =
     (if dbg then ''../'' else []) @ ''batch'' @ fmt_d 5 b @ ''_rank'' @ fmt_d 2 rank @ ''.npz''"

text \<open>\<open>dic2[key]\<close>; \<open>dic2\<close> is \<open>None\<close> when no archive was loaded.\<close>

definition dic2_get :: "npz option \<Rightarrow> string \<Rightarrow> error + nat" where
  "dic2_get dic2 k =
     (case dic2 of None \<Rightarrow> Inl TypeError
      | Some d \<Rightarrow> (case d k of None \<Rightarrow> Inl (KeyError k) | Some v \<Rightarrow> Inr v))"

fun read_keys :: "npz option \<Rightarrow> string list \<Rightarrow> error + unit" where
  "read_keys dic2 [] = Inr ()"
| "read_keys dic2 (k # ks) =
     (case dic2_get dic2 k of Inl e \<Rightarrow> Inl e | Inr _ \<Rightarrow> read_keys dic2 ks)"

text \<open>
  The \<open>if self.align_grad:\<close> blocks that compare a tensor with \<open>dic2[key]\<close> and
  print the squared difference. The comparison itself is opaque; what the model keeps is
  the lookup of each key, in the order of the source.
\<close>

definition align_read :: "model \<Rightarrow> npz option \<Rightarrow> string list \<Rightarrow> error + unit" where
  "align_read m dic2 ks = (if align_grad m then read_keys dic2 ks else Inr ())"

section \<open>The loss term evaluator\<close>

text \<open>
  The style-mixing block of \<open>run_G\<close>: \<open>None\<close> when the block is not entered,
  otherwise the cutoff from which the style codes of \<open>ws\<close> are replaced
  (\<open>num_ws = ws.shape[1]\<close> replaces nothing).
\<close>

definition style_mixing_cutoff :: "opaque \<Rightarrow> model \<Rightarrow> nat \<Rightarrow> nat option" where
  "style_mixing_cutoff orc m num_ws =
     (if style_mixing_prob m > 0
      then Some (if rand_uniform orc < style_mixing_prob m then rand_cutoff orc else num_ws)
      else None)"

text \<open>
  \<open>run_D\<close> evaluates \<open>self.discriminator\<close>, an attribute that \<open>__init__\<close> sets only
  when a discriminator was passed.
\<close>

definition run_D :: "model \<Rightarrow> error + unit" where
  "run_D m =
     (case discriminator m of None \<Rightarrow> Inl (AttributeError ''discriminator'')
      | Some _ \<Rightarrow> Inr ())"

text \<open>The block \<open>if do_Gmain:\<close> of \<open>accumulate_gradients\<close>.\<close>

definition Gmain_block ::
  "opaque \<Rightarrow> model \<Rightarrow> string \<Rightarrow> npz option \<Rightarrow> (string \<rightharpoonup> real) \<Rightarrow> error + (string \<rightharpoonup> real)" where
  "Gmain_block orc m ph dic2 loss_numpy =
     and_then (align_read m dic2 [ph @ ''gen_img'', ph @ ''_gen_ws'']) (\<lambda>_.
     and_then (run_D m) (\<lambda>_.
     and_then (align_read m dic2 [ph @ ''gen_logits'']) (\<lambda>_.
     Inr (loss_numpy(''loss_Gmain'' \<mapsto> loss_value orc ph ''loss_Gmain'')))))"

text \<open>The block \<open>if do_Gpl:\<close>; it also updates \<open>self.pl_mean\<close>.\<close>

definition Gpl_block ::
  "opaque \<Rightarrow> model \<Rightarrow> string \<Rightarrow> npz option \<Rightarrow> (string \<rightharpoonup> real)
     \<Rightarrow> error + ((string \<rightharpoonup> real) \<times> model)" where
  "Gpl_block orc m ph dic2 loss_numpy =
     (if pl_batch_shrink m = 0 then Inl ZeroDivisionError
      else
        and_then (align_read m dic2
                    [ph @ ''gen_img'', ph @ ''gen_ws'', ph @ ''pl_grads'', ph @ ''pl_lengths''])
        (\<lambda>_.
          let old = (case pl_mean m of None \<Rightarrow> 0 | Some v \<Rightarrow> v);
              new = lerp old (pl_lengths_mean orc ph) (pl_decay m)
          in Inr (loss_numpy(''loss_Gpl'' \<mapsto> loss_value orc ph ''loss_Gpl''),
                  m\<lparr>pl_mean := Some new\<rparr>)))"

text \<open>The block \<open>if do_Dmain:\<close> (discriminator loss on generated images).\<close>

definition Dgen_block ::
  "opaque \<Rightarrow> model \<Rightarrow> string \<Rightarrow> npz option \<Rightarrow> (string \<rightharpoonup> real) \<Rightarrow> error + (string \<rightharpoonup> real)" where
  "Dgen_block orc m ph dic2 loss_numpy =
     and_then (align_read m dic2 [ph @ ''gen_img'', ph @ ''_gen_ws'']) (\<lambda>_.
     and_then (run_D m) (\<lambda>_.
     and_then (align_read m dic2 [ph @ ''gen_logits'']) (\<lambda>_.
     Inr (loss_numpy(''loss_Dgen'' \<mapsto> loss_value orc ph ''loss_Dgen'')))))"

text \<open>
  The block \<open>if do_Dmain or do_Dr1:\<close>; it appends the signs of the real logits to
  \<open>self.Loss_signs_real\<close> when the augmentation controller is enabled.
\<close>

definition Dreal_block ::
  "opaque \<Rightarrow> model \<Rightarrow> string \<Rightarrow> bool \<Rightarrow> bool \<Rightarrow> npz option \<Rightarrow> (string \<rightharpoonup> real)
     \<Rightarrow> error + ((string \<rightharpoonup> real) \<times> model)" where
  "Dreal_block orc m ph do_Dmain do_Dr1 dic2 loss_numpy =
     and_then (run_D m) (\<lambda>_.
       let m1 = (if adjust_p m \<and> augment_pipe m \<noteq> None
                 then m\<lparr>Loss_signs_real := Loss_signs_real m @ [real_logits_sign orc ph]\<rparr>
                 else m)
       in
       and_then (align_read m dic2 [ph @ ''real_logits'']) (\<lambda>_.
       and_then (if do_Dmain
                 then and_then (align_read m dic2 [ph @ ''loss_Dreal'']) (\<lambda>_.
                        Inr (loss_numpy(''loss_Dreal'' \<mapsto> loss_value orc ph ''loss_Dreal'')))
                 else Inr loss_numpy) (\<lambda>l1.
       and_then (if do_Dr1
                 then and_then (align_read m dic2 [ph @ ''r1_grads'', ph @ ''r1_penalty'']) (\<lambda>_.
                        Inr (l1(''loss_Dr1'' \<mapsto> loss_value orc ph ''loss_Dr1'')))
                 else Inr l1) (\<lambda>l2.
       Inr (l2, m1)))))"

text \<open>
  The assertion and the four flags at the head of \<open>accumulate_gradients\<close>.
\<close>

definition known_phase :: "string \<Rightarrow> bool" where
  "known_phase ph \<longleftrightarrow> ph \<in> set [''Gmain'', ''Greg'', ''Gboth'', ''Dmain'', ''Dreg'', ''Dboth'']"

definition do_Gmain :: "string \<Rightarrow> bool" where
  "do_Gmain ph \<longleftrightarrow> ph \<in> set [''Gmain'', ''Gboth'']"

definition do_Dmain :: "string \<Rightarrow> bool" where
  "do_Dmain ph \<longleftrightarrow> ph \<in> set [''Dmain'', ''Dboth'']"

definition do_Gpl :: "model \<Rightarrow> string \<Rightarrow> bool" where
  "do_Gpl m ph \<longleftrightarrow> ph \<in> set [''Greg'', ''Gboth''] \<and> pl_weight m \<noteq> 0"

definition do_Dr1 :: "model \<Rightarrow> string \<Rightarrow> bool" where
  "do_Dr1 m ph \<longleftrightarrow> ph \<in> set [''Dreg'', ''Dboth''] \<and> r1_gamma m \<noteq> 0"

text \<open>
  \<open>accumulate_gradients\<close>: the returned pair is \<open>loss_numpy\<close> and the object after the
  call. The tensors \<open>real_img\<close>, \<open>real_c\<close>, \<open>gen_z\<close> and \<open>gen_c\<close> only feed the
  opaque networks.
\<close>

definition accumulate_gradients ::
  "opaque \<Rightarrow> model \<Rightarrow> string \<Rightarrow> nat \<Rightarrow> label_arg \<Rightarrow> nat \<Rightarrow> label_arg \<Rightarrow> bool \<Rightarrow> int
     \<Rightarrow> npz option \<Rightarrow> error + ((string \<rightharpoonup> real) \<times> model)" where
  "accumulate_gradients orc m ph real_img real_c gen_z gen_c sync gain dic2 =
     (if \<not> known_phase ph then Inl AssertionError
      else
        and_then (if do_Gmain ph then Gmain_block orc m ph dic2 Map.empty else Inr Map.empty)
        (\<lambda>l1.
        and_then (if do_Gpl m ph then Gpl_block orc m ph dic2 l1 else Inr (l1, m))
        (\<lambda>(l2, m2).
        and_then (if do_Dmain ph then Dgen_block orc m2 ph dic2 l2 else Inr l2)
        (\<lambda>l3.
        if do_Dmain ph \<or> do_Dr1 m ph
        then Dreal_block orc m2 ph (do_Dmain ph) (do_Dr1 m ph) dic2 l3
        else Inr (l3, m2)))))"

section \<open>The training iteration\<close>

text \<open>
  The merge of one \<open>loss_numpy\<close> into \<open>loss_numpys\<close>: a key already present is
  added to (\<open>+=\<close>), a new key is stored.
\<close>

definition add_losses :: "(string \<rightharpoonup> real) \<Rightarrow> (string \<rightharpoonup> real) \<Rightarrow> (string \<rightharpoonup> real)" where
  "add_losses loss_numpys loss_numpy =
     (\<lambda>k. case loss_numpy k of
            None \<Rightarrow> loss_numpys k
          | Some v \<Rightarrow> (case loss_numpys k of None \<Rightarrow> Some v | Some u \<Rightarrow> Some (u + v)))"

text \<open>
  The inner loop \<open>for round_idx, (real_img, real_c, gen_z, gen_c) in enumerate(zip(...))\<close>;
  \<open>num_gpus\<close> is the constant 1 of \<open>train_iter\<close>.
\<close>

fun accumulate_rounds ::
  "opaque \<Rightarrow> npz option \<Rightarrow> nat \<Rightarrow> phase \<Rightarrow> nat \<Rightarrow> (nat \<times> label_arg \<times> nat \<times> label_arg) list
     \<Rightarrow> model \<times> (string \<rightharpoonup> real) \<times> call list
     \<Rightarrow> error + (model \<times> (string \<rightharpoonup> real) \<times> call list)" where
  "accumulate_rounds orc dic2 batch_size ph round_idx [] st = Inr st"
| "accumulate_rounds orc dic2 batch_size ph round_idx ((real_img, real_c, gen_z, gen_c) # rest)
       (m, loss_numpys, calls) =
     (let num_gpus = 1; batch_gpu = batch_size div num_gpus
      in if batch_gpu * num_gpus = 0 then Inl ZeroDivisionError
         else
           let sync = (int round_idx = int (batch_size div (batch_gpu * num_gpus)) - 1);
               gain = interval ph
           in and_then
                (accumulate_gradients orc m (name ph) real_img real_c gen_z gen_c sync gain dic2)
                (\<lambda>(loss_numpy, m').
                   accumulate_rounds orc dic2 batch_size ph (Suc round_idx) rest
                     (m', add_losses loss_numpys loss_numpy,
                      calls @ [Accumulate (name ph) gain sync])))"

text \<open>
  \<open>Initialize gradient accumulation\<close>: \<open>zero_grad\<close> on the optimizer chosen by
  \<open>'G' in phase['name']\<close>, else by \<open>'D' in phase['name']\<close>. The dictionary
  \<open>optimizers\<close> is the one \<open>Trainer.before_train\<close> builds, with both keys.
\<close>

definition initialize_gradients :: "phase \<Rightarrow> model \<Rightarrow> call list \<Rightarrow> error + call list" where
  "initialize_gradients ph m calls =
     (if CHR ''G'' \<in> set (name ph) then Inr (calls @ [Zero_grad ''optimizer_G''])
      else if CHR ''D'' \<in> set (name ph) then
        (case discriminator m of None \<Rightarrow> Inl (AttributeError ''discriminator'')
         | Some _ \<Rightarrow> Inr (calls @ [Zero_grad ''optimizer_D'']))
      else Inr calls)"

text \<open>
  \<open>Update weights\<close>: \<open>step\<close> on the same optimizer. The live networks after the phase
  are what the opaque passes and the optimizer step made of them.
\<close>

definition update_weights ::
  "opaque \<Rightarrow> phase \<Rightarrow> model \<Rightarrow> call list \<Rightarrow> error + (model \<times> call list)" where
  "update_weights orc ph m calls =
     (let m' = m\<lparr>mapping := mapping_after orc (name ph) (mapping m),
                  synthesis := synthesis_after orc (name ph) (synthesis m),
                  discriminator := map_option (discriminator_after orc (name ph)) (discriminator m)\<rparr>
      in if CHR ''G'' \<in> set (name ph) then Inr (m', calls @ [Step ''optimizer_G''])
         else if CHR ''D'' \<in> set (name ph) then
           (case discriminator m of None \<Rightarrow> Inl (AttributeError ''discriminator'')
            | Some _ \<Rightarrow> Inr (m', calls @ [Step ''optimizer_D'']))
         else Inr (m, calls))"

text \<open>
  The loop \<open>for phase, phase_gen_z, phase_gen_c in zip(phases, all_gen_z, all_gen_c)\<close>.
  \<open>self.batch_idx % phase['interval']\<close> raises for a zero interval; Python's \<open>%\<close> on
  integers is \<open>mod\<close> on \<open>int\<close> (the result has the sign of the divisor).
\<close>

fun execute_phases ::
  "opaque \<Rightarrow> npz option \<Rightarrow> nat \<Rightarrow> nat list \<Rightarrow> label_arg list
     \<Rightarrow> (phase \<times> nat list \<times> label_arg list) list
     \<Rightarrow> model \<times> (string \<rightharpoonup> real) \<times> call list
     \<Rightarrow> error + (model \<times> (string \<rightharpoonup> real) \<times> call list)" where
  "execute_phases orc dic2 batch_size real_imgs real_cs [] st = Inr st"
| "execute_phases orc dic2 batch_size real_imgs real_cs ((ph, phase_gen_z, phase_gen_c) # rest)
       (m, loss_numpys, calls) =
     (if interval ph = 0 then Inl ZeroDivisionError
      else if batch_idx m mod interval ph \<noteq> 0
      then execute_phases orc dic2 batch_size real_imgs real_cs rest (m, loss_numpys, calls)
      else
        and_then (initialize_gradients ph m calls) (\<lambda>calls1.
        and_then (accumulate_rounds orc dic2 batch_size ph 0
                    (zip real_imgs (zip real_cs (zip phase_gen_z phase_gen_c)))
                    (m, loss_numpys, calls1))
        (\<lambda>(m2, loss_numpys2, calls2).
        and_then (update_weights orc ph m2 calls2) (\<lambda>(m3, calls3).
        execute_phases orc dic2 batch_size real_imgs real_cs rest (m3, loss_numpys2, calls3)))))"

subsection \<open>The EMA tracker\<close>

text \<open>
  \<open>for p_ema, p in zip(ema.parameters(), live.parameters()): p_ema.copy_(p.lerp(p_ema, ema_beta))\<close>
  overwrites the entries of the EMA list that the zip reaches and leaves the rest.
\<close>

definition blend_parameters :: "real \<Rightarrow> real list \<Rightarrow> real list \<Rightarrow> real list" where
  "blend_parameters ema_beta ema live =
     map (\<lambda>(p_ema, p). lerp p p_ema ema_beta) (zip ema live) @ drop (length (zip ema live)) ema"

text \<open>\<open>for b_ema, b in zip(ema.buffers(), live.buffers()): b_ema.copy_(b)\<close>.\<close>

definition copy_buffers :: "real list \<Rightarrow> real list \<Rightarrow> real list" where
  "copy_buffers ema live =
     map (\<lambda>(b_ema, b). b) (zip ema live) @ drop (length (zip ema live)) ema"

definition compute_ema_beta :: "model \<Rightarrow> nat \<Rightarrow> real" where
  "compute_ema_beta m batch_size =
     (let ema_nimg = ema_kimg m * 1000;
          ema_nimg = (case ema_rampup m of None \<Rightarrow> ema_nimg
                      | Some r \<Rightarrow> min ema_nimg (real_of_int (cur_nimg m) * r))
      in (1 / 2) powr (real batch_size / max ema_nimg (1 / 10 ^ 8)))"

definition update_ema :: "model \<Rightarrow> nat \<Rightarrow> model" where
  "update_ema m batch_size =
     (let ema_beta = compute_ema_beta m batch_size
      in m\<lparr>mapping_ema :=
             \<lparr>parameters = blend_parameters ema_beta (parameters (mapping_ema m)) (parameters (mapping m)),
              buffers = copy_buffers (buffers (mapping_ema m)) (buffers (mapping m))\<rparr>,
           synthesis_ema :=
             \<lparr>parameters = blend_parameters ema_beta (parameters (synthesis_ema m)) (parameters (synthesis m)),
              buffers = copy_buffers (buffers (synthesis_ema m)) (buffers (synthesis m))\<rparr>\<rparr>)"

subsection \<open>The adaptive augmentation controller\<close>

text \<open>
  The block \<open>Execute ADA heuristic\<close>, run on the object whose \<open>batch_idx\<close> has already
  been incremented. \<open>np.concatenate\<close> raises on an empty list; subtracting a
  \<open>None\<close> target raises; the mean of no elements and a division by a zero
  \<open>ada_kimg * 1000\<close> give NaN or an infinity in the source, where the model stops with
  \<open>NotReal\<close>.
\<close>

definition ada_heuristic :: "model \<Rightarrow> npz option \<Rightarrow> nat \<Rightarrow> error + model" where
  "ada_heuristic m dic2 batch_size =
     (case (if adjust_p m then augment_pipe m else None) of
        None \<Rightarrow> Inr m
      | Some p \<Rightarrow>
          if ada_interval m = 0 then Inl ZeroDivisionError
          else if batch_idx m mod ada_interval m \<noteq> 0 then Inr m
          else if Loss_signs_real m = [] then Inl ValueError
          else
            let signs = concat (Loss_signs_real m)
            in case ada_target m of
                 None \<Rightarrow> Inl TypeError
               | Some target \<Rightarrow>
                   and_then (align_read m dic2 [''augment_pipe_p'', ''aaaaaaaaaa1'']) (\<lambda>_.
                     if signs = [] \<or> ada_kimg m * 1000 = 0 then Inl NotReal
                     else
                       let Loss_signs_real_mean = sum_list signs / real (length signs);
                           diff = Loss_signs_real_mean - target;
                           adjust = sgn diff;
                           adjust = adjust * (real batch_size * real_of_int (ada_interval m))
                                      / (ada_kimg m * 1000)
                       in Inr (m\<lparr>augment_pipe := Some (max (p + adjust) (constant_tensor 0)),
                                  Loss_signs_real := []\<rparr>)))"

subsection \<open>\<open>train_iter\<close>\<close>

text \<open>
  The gradient-alignment block at the start of \<open>train_iter\<close>: the archive and the
  number of real images the iteration goes on with.
\<close>

definition load_reference :: "env \<Rightarrow> model \<Rightarrow> int \<Rightarrow> batch \<Rightarrow> error + (npz option \<times> nat)" where
  "load_reference ev m rank inp =
     (if align_grad m then
        (let path = npz_path (is_debug ev) (batch_idx m) rank
         in case files ev path of
              None \<Rightarrow> Inl (FileNotFoundError path)
            | Some dic2 \<Rightarrow>
                and_then (dic2_get (Some dic2) ''phase_real_img'') (\<lambda>aaaaaaaaa.
                  Inr (Some dic2, aaaaaaaaa)))
      else Inr (None, phase_real_img inp))"

text \<open>The number of rows of \<open>all_gen_z\<close>.\<close>

definition draw_all_gen_z :: "model \<Rightarrow> npz option \<Rightarrow> nat \<Rightarrow> error + nat" where
  "draw_all_gen_z m dic2 batch_size =
     (if z_dim m > 0 then
        (if align_grad m then dic2_get dic2 ''all_gen_z''
         else Inr (length (phases m) * batch_size))
      else Inr (length (phases m) * batch_size))"

text \<open>
  \<open>c_dim = phases_all_gen_c[0].shape[1]\<close> and the list \<open>all_gen_c\<close>: the label
  tensor of each phase split into per-device chunks, or \<open>None\<close> for each device of each
  phase when the labels have width 0.
\<close>

definition split_gen_c :: "model \<Rightarrow> batch \<Rightarrow> nat \<Rightarrow> nat \<Rightarrow> error + label_arg list list" where
  "split_gen_c m inp batch_gpu num_gpus =
     (case phases_all_gen_c inp of
        [] \<Rightarrow> Inl IndexError
      | gen_c0 # _ \<Rightarrow>
          if snd gen_c0 > 0
          then map_err (\<lambda>phase_gen_c.
                 and_then (split_sizes (fst phase_gen_c) batch_gpu) (\<lambda>cs.
                   Inr (map Label_rows cs)))
               (phases_all_gen_c inp)
          else Inr (replicate (length (phases m)) (replicate num_gpus No_label)))"

text \<open>
  \<open>c_dim = phase_real_c.shape[1]\<close> and the list \<open>phase_real_c\<close>: the chunks of the
  real labels, or one list \<open>[None]\<close> per phase when the labels have width 0.
\<close>

definition split_real_c :: "model \<Rightarrow> batch \<Rightarrow> nat \<Rightarrow> error + label_arg list" where
  "split_real_c m inp batch_gpu =
     (if snd (phase_real_c inp) > 0
      then and_then (split_sizes (fst (phase_real_c inp)) batch_gpu) (\<lambda>cs.
             Inr (map Label_rows cs))
      else Inr (replicate (length (phases m)) No_label_list))"

text \<open>\<open>self.cur_nimg += batch_size\<close> and \<open>self.batch_idx += 1\<close>.\<close>

definition advance_counters :: "model \<Rightarrow> nat \<Rightarrow> model" where
  "advance_counters m batch_size =
     m\<lparr>cur_nimg := cur_nimg m + int batch_size, batch_idx := batch_idx m + 1\<rparr>"

text \<open>
  \<open>train_iter\<close> returns \<open>loss_numpys\<close>; the model also returns the object after the
  call and the calls made on the collaborators.
\<close>

definition train_iter ::
  "env \<Rightarrow> opaque \<Rightarrow> int \<Rightarrow> model \<Rightarrow> error + ((string \<rightharpoonup> real) \<times> model \<times> call list)" where
  "train_iter ev orc rank m =
     (case input m of
        None \<Rightarrow> Inl (AttributeError ''input'')
      | Some inp \<Rightarrow>
          and_then (load_reference ev m rank inp) (\<lambda>(dic2, real_img_rows).
          let batch_size = real_img_rows; num_gpus = 1; batch_gpu = batch_size div num_gpus
          in
          and_then (draw_all_gen_z m dic2 batch_size) (\<lambda>all_gen_z_rows.
          and_then (split_sizes all_gen_z_rows batch_size) (\<lambda>phases_all_gen_z.
          and_then (map_err (\<lambda>phase_gen_z. split_sizes phase_gen_z batch_gpu) phases_all_gen_z)
          (\<lambda>all_gen_z.
          and_then (split_gen_c m inp batch_gpu num_gpus) (\<lambda>all_gen_c.
          and_then (split_sizes real_img_rows batch_gpu) (\<lambda>real_imgs.
          and_then (split_real_c m inp batch_gpu) (\<lambda>real_cs.
          and_then
            (execute_phases orc dic2 batch_size real_imgs real_cs
               (zip (phases m) (zip all_gen_z all_gen_c)) (m, Map.empty, []))
          (\<lambda>(m1, loss_numpys, calls).
          let m3 = advance_counters (update_ema m1 batch_size) batch_size
          in
          and_then (align_read m3 dic2 [''w_avg'']) (\<lambda>_.
          and_then (ada_heuristic m3 dic2 batch_size) (\<lambda>m4.
          Inr (loss_numpys, m4, calls))))))))))))"

text \<open>
  \<open>Trainer.train_in_iter\<close> with \<open>train_one_iter\<close>: each iteration takes the next batch
  from the prefetcher, calls \<open>setup_input\<close> and then \<open>train_iter(self.optimizers)\<close>,
  whose \<open>rank\<close> is the default 0. Each iteration comes with the files on disk and the
  results of the opaque computations at that time. The timing, the meters and the
  periodic logging and snapshots of \<open>after_iter\<close> do not touch the attributes modelled
  here (a snapshot replaces \<open>self.input\<close>, which the next iteration sets again).
\<close>

fun train_in_iter :: "(env \<times> opaque \<times> batch) list \<Rightarrow> model \<Rightarrow> error + model" where
  "train_in_iter [] m = Inr m"
| "train_in_iter ((ev, orc, data) # rest) m =
     (case train_iter ev orc 0 (setup_input m data) of
        Inl e \<Rightarrow> Inl e
      | Inr (outputs, m', calls) \<Rightarrow> train_in_iter rest m')"

section \<open>Optimizer hyperparameters in \<open>Trainer.before_train\<close>\<close>

text \<open>
  The experiment configuration that the \<open>StyleGANv2ADA\<close> branch of \<open>before_train\<close>
  reads: \<open>exp.basic_lr_per_img\<close>, \<open>exp.optimizer_cfg\<close> with its entries
  \<open>'generator'\<close> and \<open>'discriminator'\<close>, and the two regularization intervals.
\<close>

record adam_cfg =
  beta1 :: real
  beta2 :: real

record exp_cfg =
  basic_lr_per_img :: real
  cfg_generator :: adam_cfg
  cfg_discriminator :: adam_cfg
  G_reg_interval :: "int option"
  D_reg_interval :: "int option"

text \<open>
  What \<open>before_train\<close> has set when it calls \<open>exp.get_optimizer(self.base_lr_G, 'G')\<close>
  and \<open>exp.get_optimizer(self.base_lr_D, 'D')\<close>: the two learning rates it passes and the
  configuration the optimizers are built from. An attribute not yet assigned is \<open>None\<close>.
\<close>

record trainer =
  base_lr_G :: "real option"
  base_lr_D :: "real option"
  exp :: exp_cfg

text \<open>
  Python's \<open>x ** y\<close> on floats: \<open>x ** 0.0\<close> is 1, \<open>0.0 ** y\<close> is 0 for a positive
  \<open>y\<close> and raises for a negative one, and a negative base with a fractional exponent
  gives a complex number.
\<close>

definition py_pow :: "real \<Rightarrow> real \<Rightarrow> error + real" where
  "py_pow x y =
     (if y = 0 then Inr 1
      else if x = 0 then (if y < 0 then Inl ZeroDivisionError else Inr 0)
      else if x > 0 then Inr (x powr y)
      else if y = of_int \<lfloor>y\<rfloor> then Inr ((if even \<lfloor>y\<rfloor> then 1 else - 1) * (\<bar>x\<bar> powr y))
      else Inl NotReal)"

text \<open>
  The loop \<open>for name, reg_interval in [('G', G_reg_interval), ('D', D_reg_interval)]\<close>.
  The local variables \<open>new_lr\<close>, \<open>new_beta1\<close> and \<open>new_beta2\<close> are assigned together
  in the \<open>else\<close> branch only, so they are one optional triple: \<open>None\<close> while unbound.
  \<open>beta1\<close> and \<open>beta2\<close> were read from \<open>optimizer_cfg['generator']\<close> before the loop.
\<close>

fun prescale_loop ::
  "real \<Rightarrow> real \<Rightarrow> real \<Rightarrow> (string \<times> int option) list
     \<Rightarrow> (real \<times> real \<times> real) option \<times> trainer
     \<Rightarrow> error + ((real \<times> real \<times> real) option \<times> trainer)" where
  "prescale_loop learning_rate b1 b2 [] st = Inr st"
| "prescale_loop learning_rate b1 b2 ((nm, reg_interval) # rest) (new, tr) =
     and_then
       (case reg_interval of
          None \<Rightarrow> Inr new
        | Some k \<Rightarrow>
            if k + 1 = 0 then Inl ZeroDivisionError
            else
              let mb_ratio = real_of_int k / real_of_int (k + 1)
              in and_then (py_pow b1 mb_ratio) (\<lambda>new_beta1.
                 and_then (py_pow b2 mb_ratio) (\<lambda>new_beta2.
                 Inr (Some (learning_rate * mb_ratio, new_beta1, new_beta2)))))
       (\<lambda>new'.
          if nm = ''G'' then
            (case new' of
               None \<Rightarrow> Inl (UnboundLocalError ''new_lr'')
             | Some (new_lr, new_beta1, new_beta2) \<Rightarrow>
                 prescale_loop learning_rate b1 b2 rest
                   (new', tr\<lparr>base_lr_G := Some new_lr,
                             exp := (exp tr)\<lparr>cfg_generator :=
                                      \<lparr>beta1 = new_beta1, beta2 = new_beta2\<rparr>\<rparr>\<rparr>))
          else if nm = ''D'' then
            (case new' of
               None \<Rightarrow> Inl (UnboundLocalError ''new_lr'')
             | Some (new_lr, new_beta1, new_beta2) \<Rightarrow>
                 prescale_loop learning_rate b1 b2 rest
                   (new', tr\<lparr>base_lr_D := Some new_lr,
                             exp := (exp tr)\<lparr>cfg_discriminator :=
                                      \<lparr>beta1 = new_beta1, beta2 = new_beta2\<rparr>\<rparr>\<rparr>))
          else prescale_loop learning_rate b1 b2 rest (new', tr))"

text \<open>
  The \<open>StyleGANv2ADA\<close> branch of \<open>before_train\<close> up to the construction of the
  optimizers; \<open>batch_size\<close> is \<open>args.batch_size\<close>.
\<close>

definition before_train :: "exp_cfg \<Rightarrow> int \<Rightarrow> error + trainer" where
  "before_train ex batch_size =
     (let learning_rate = basic_lr_per_img ex * real_of_int batch_size;
          b1 = beta1 (cfg_generator ex);
          b2 = beta2 (cfg_generator ex)
      in and_then
           (prescale_loop learning_rate b1 b2
              [(''G'', G_reg_interval ex), (''D'', D_reg_interval ex)]
              (None, \<lparr>base_lr_G = None, base_lr_D = None, exp = ex\<rparr>))
           (\<lambda>(new, tr). Inr tr))"

section \<open>Notions used in the statements\<close>

text \<open>
  The attributes that neither \<open>accumulate_gradients\<close> nor the phase loop assigns:
  everything but the live networks, \<open>pl_mean\<close> and \<open>Loss_signs_real\<close> (of the
  discriminator only its presence is kept).
\<close>

definition same_settings :: "model \<Rightarrow> model \<Rightarrow> bool" where
  "same_settings m m' \<longleftrightarrow>
     synthesis_ema m' = synthesis_ema m \<and> mapping_ema m' = mapping_ema m
     \<and> (discriminator m' = None \<longleftrightarrow> discriminator m = None)
     \<and> c_dim m' = c_dim m \<and> z_dim m' = z_dim m \<and> w_dim m' = w_dim m
     \<and> phases m' = phases m \<and> cur_nimg m' = cur_nimg m \<and> batch_idx m' = batch_idx m
     \<and> augment_pipe m' = augment_pipe m \<and> style_mixing_prob m' = style_mixing_prob m
     \<and> r1_gamma m' = r1_gamma m \<and> pl_batch_shrink m' = pl_batch_shrink m
     \<and> pl_decay m' = pl_decay m \<and> pl_weight m' = pl_weight m
     \<and> ema_kimg m' = ema_kimg m \<and> ema_rampup m' = ema_rampup m
     \<and> augment_p m' = augment_p m \<and> ada_kimg m' = ada_kimg m
     \<and> ada_target m' = ada_target m \<and> ada_interval m' = ada_interval m
     \<and> adjust_p m' = adjust_p m \<and> align_grad m' = align_grad m
     \<and> is_distributed m' = is_distributed m \<and> input m' = input m"

text \<open>A phase is due at the current batch index when the index is a multiple of its interval.\<close>

definition due :: "model \<Rightarrow> phase \<Rightarrow> bool" where
  "due m ph \<longleftrightarrow> batch_idx m mod interval ph = 0"

text \<open>
  The calls that make up one executed phase on a single device: \<open>zero_grad\<close> on the
  optimizer of the phase's role, one gradient accumulation with the interval as gain and
  with synchronization, and \<open>step\<close> on the same optimizer.
\<close>

definition optimizer_key :: "string \<Rightarrow> string" where
  "optimizer_key nm = (if CHR ''G'' \<in> set nm then ''optimizer_G'' else ''optimizer_D'')"

definition phase_calls :: "phase \<Rightarrow> call list" where
  "phase_calls ph =
     [Zero_grad (optimizer_key (name ph)),
      Accumulate (name ph) (interval ph) True,
      Step (optimizer_key (name ph))]"

text \<open>
  The keys of the reference archive that \<open>accumulate_gradients\<close> reads for a phase name
  when \<open>align_grad\<close> is set, block by block.
\<close>

definition phase_keys :: "model \<Rightarrow> string \<Rightarrow> string list" where
  "phase_keys m ph =
     (if do_Gmain ph then [ph @ ''gen_img'', ph @ ''_gen_ws'', ph @ ''gen_logits''] else [])
     @ (if do_Gpl m ph
        then [ph @ ''gen_img'', ph @ ''gen_ws'', ph @ ''pl_grads'', ph @ ''pl_lengths''] else [])
     @ (if do_Dmain ph then [ph @ ''gen_img'', ph @ ''_gen_ws'', ph @ ''gen_logits''] else [])
     @ (if do_Dmain ph \<or> do_Dr1 m ph then [ph @ ''real_logits''] else [])
     @ (if do_Dmain ph then [ph @ ''loss_Dreal''] else [])
     @ (if do_Dr1 m ph then [ph @ ''r1_grads'', ph @ ''r1_penalty''] else [])"

text \<open>
  Every gradient accumulation among the calls found the keys of its phase in the archive.
\<close>

definition keys_read :: "npz \<Rightarrow> model \<Rightarrow> call list \<Rightarrow> bool" where
  "keys_read d m calls \<longleftrightarrow>
     (\<forall>nm g s. Accumulate nm g s \<in> set calls \<longrightarrow> set (phase_keys m nm) \<subseteq> dom d)"

text \<open>The names under which \<open>accumulate_gradients\<close> logs losses for a phase name.\<close>

definition loss_names :: "model \<Rightarrow> string \<Rightarrow> string set" where
  "loss_names m ph =
     (if do_Gmain ph then {''loss_Gmain''} else {})
     \<union> (if do_Gpl m ph then {''loss_Gpl''} else {})
     \<union> (if do_Dmain ph then {''loss_Dgen'', ''loss_Dreal''} else {})
     \<union> (if do_Dr1 m ph then {''loss_Dr1''} else {})"

section \<open>A concrete run\<close>

text \<open>
  The end-to-end scenario of the spec: the default four-phase schedule
  (\<open>G_reg_interval = 4\<close>, \<open>D_reg_interval = 16\<close>), unconditional labels
  (\<open>c_dim = 0\<close>), \<open>z_dim = 4\<close>, a batch of 8 real images, one device. The
  augmentation controller is enabled and fires on every batch. The reference archive holds
  every key, with 8 rows each, and 32 rows of noise; every path opens this archive.
\<close>

definition example_kwargs :: kwargs where
  "example_kwargs =
     \<lparr>kw_synthesis = \<lparr>parameters = [1, 2], buffers = [3]\<rparr>,
      kw_synthesis_ema = \<lparr>parameters = [0, 0], buffers = [0]\<rparr>,
      kw_mapping = \<lparr>parameters = [4], buffers = [5]\<rparr>,
      kw_mapping_c_dim = 0,
      kw_mapping_z_dim = 4,
      kw_mapping_w_dim = 4,
      kw_mapping_ema = \<lparr>parameters = [0], buffers = [0]\<rparr>,
      kw_discriminator = Some \<lparr>parameters = [6], buffers = []\<rparr>,
      kw_G_reg_interval = Some 4,
      kw_D_reg_interval = Some 16,
      kw_augment_pipe = Some 0,
      kw_style_mixing_prob = 9 / 10,
      kw_r1_gamma = 10,
      kw_pl_batch_shrink = 2,
      kw_pl_decay = 1 / 100,
      kw_pl_weight = 2,
      kw_ema_kimg = 10,
      kw_ema_rampup = None,
      kw_augment_p = 0,
      kw_ada_kimg = 500,
      kw_ada_interval = 1,
      kw_ada_target = Some (6 / 10),
      kw_adjust_p = True\<rparr>"

definition example_batch :: batch where
  "example_batch =
     \<lparr>phase_real_img = 8, phase_real_c = (8, 0),
      phases_all_gen_c = [(8, 0), (8, 0), (8, 0), (8, 0)]\<rparr>"

definition example_npz :: npz where
  "example_npz = (\<lambda>k. if k = ''all_gen_z'' then Some 32 else Some 8)"

definition example_env :: env where
  "example_env = \<lparr>files = (\<lambda>path. Some example_npz), is_debug = False\<rparr>"

text \<open>
  Opaque results for the run: every loss is 1, the optimizer steps leave the toy networks
  as they are, and all real logits have the given sign.
\<close>

definition example_opaque :: "real \<Rightarrow> opaque" where
  "example_opaque sign_of_logits =
     \<lparr>loss_value = (\<lambda>ph k. 1),
      real_logits_sign = (\<lambda>ph. replicate 8 sign_of_logits),
      pl_lengths_mean = (\<lambda>ph. 1),
      mapping_after = (\<lambda>ph net. net),
      synthesis_after = (\<lambda>ph net. net),
      discriminator_after = (\<lambda>ph net. net),
      rand_cutoff = 1,
      rand_uniform = 1 / 2\<rparr>"

definition example_model :: model where
  "example_model = setup_input (StyleGANv2ADAModel example_kwargs) example_batch"

text \<open>
  The object as the augmentation controller finds it at the end of the first iteration of
  the example: the counters are advanced and the sign buffer holds the signs of the eight
  real logits of the batch, all equal to the given value.
\<close>

definition example_before_ada :: "real \<Rightarrow> model" where
  "example_before_ada sign_of_logits =
     example_model\<lparr>cur_nimg := 8, batch_idx := 1,
                   Loss_signs_real := [replicate 8 sign_of_logits]\<rparr>"

text \<open>A reference archive recorded with 4 real images per batch (16 rows of noise).\<close>

definition small_npz :: npz where
  "small_npz = (\<lambda>k. if k = ''all_gen_z'' then Some 16 else Some 4)"

section \<open>Basic facts\<close>

lemma and_then_Inl [simp]: "and_then (Inl e) f = Inl e"
  by (simp add: and_then_def)

lemma and_then_Inr [simp]: "and_then (Inr v) f = f v"
  by (simp add: and_then_def)

lemma and_then_eq_Inr: "and_then r f = Inr y \<longleftrightarrow> (\<exists>v. r = Inr v \<and> f v = Inr y)"
  by (cases r) simp_all

subsection \<open>Library functions\<close>

lemma replicate_numeral: "replicate (numeral k) x = x # replicate (pred_numeral k) x"
  by (simp add: numeral_eq_Suc)

lemma npz_path_first: "npz_path False 0 0 = ''batch00000_rank00.npz''"
  by (simp add: npz_path_def fmt_d_def decimal.simps digit_def replicate_numeral)

lemma split_sizes_self: "split_sizes n n = Inr cs \<Longrightarrow> cs = [n]"
  by (auto simp: split_sizes_def split: if_splits)

lemma split_sizes_nonempty: "split_sizes n k = Inr cs \<Longrightarrow> cs \<noteq> []"
  by (auto simp: split_sizes_def split: if_splits)

lemma split_sizes_multiple:
  "0 < k \<Longrightarrow> split_sizes (l * k) k = Inr cs \<Longrightarrow> l \<le> length cs"
  by (auto simp: split_sizes_def split: if_splits)

lemma map_err_Inr:
  "map_err f xs = Inr ys \<Longrightarrow> list_all2 (\<lambda>x y. f x = Inr y) xs ys"
  by (induction xs arbitrary: ys) (auto split: sum.splits)

lemma map_err_nonempty:
  assumes "map_err f xs = Inr ys" and "\<And>x y. f x = Inr y \<Longrightarrow> y \<noteq> []"
  shows "length ys = length xs \<and> list_all (\<lambda>y. y \<noteq> []) ys"
proof -
  have l2: "list_all2 (\<lambda>x y. f x = Inr y) xs ys" using assms(1) by (rule map_err_Inr)
  then have "length ys = length xs" by (simp add: list_all2_lengthD)
  moreover have "list_all (\<lambda>y. y \<noteq> []) ys"
    using l2 assms(2) by (induction rule: list_all2_induct) auto
  ultimately show ?thesis by simp
qed

lemma py_pow_nonneg: "0 \<le> x \<Longrightarrow> 0 < y \<Longrightarrow> py_pow x y = Inr (x powr y)"
  by (simp add: py_pow_def)

lemma read_keys_Some: "read_keys (Some d) ks = Inr u \<longleftrightarrow> set ks \<subseteq> dom d"
  by (induction ks) (auto simp: dic2_get_def split: option.splits)

lemma align_read_Some:
  "align_grad m \<Longrightarrow> align_read m (Some d) ks = Inr u \<longleftrightarrow> set ks \<subseteq> dom d"
  by (simp add: align_read_def read_keys_Some)

subsection \<open>Attributes that the phases leave alone\<close>

lemma same_settings_refl [simp]: "same_settings m m"
  by (simp add: same_settings_def)

lemma same_settings_trans: "same_settings a b \<Longrightarrow> same_settings b c \<Longrightarrow> same_settings a c"
  by (simp add: same_settings_def)

lemma due_same_settings: "same_settings m m' \<Longrightarrow> due m' = due m"
  by (simp add: due_def same_settings_def fun_eq_iff)

lemma phase_keys_same_settings: "same_settings m m' \<Longrightarrow> phase_keys m' = phase_keys m"
  by (simp add: phase_keys_def do_Gpl_def do_Dr1_def same_settings_def fun_eq_iff)

lemma keys_read_same_settings: "same_settings m m' \<Longrightarrow> keys_read d m' = keys_read d m"
  by (simp add: keys_read_def phase_keys_same_settings fun_eq_iff)

lemma loss_names_same_settings: "same_settings m m' \<Longrightarrow> loss_names m' = loss_names m"
  by (simp add: loss_names_def do_Gpl_def do_Dr1_def same_settings_def fun_eq_iff)

section \<open>Facts about the loss term evaluator\<close>

lemma Gpl_block_settings:
  "Gpl_block orc m ph dic2 l = Inr (l', m') \<Longrightarrow> same_settings m m'"
  by (auto simp: Gpl_block_def and_then_eq_Inr same_settings_def Let_def split: if_splits)

lemma Dreal_block_model:
  "Dreal_block orc m ph a b dic2 l = Inr (l', m') \<Longrightarrow>
     m' = (if adjust_p m \<and> augment_pipe m \<noteq> None
           then m\<lparr>Loss_signs_real := Loss_signs_real m @ [real_logits_sign orc ph]\<rparr> else m)"
  unfolding Dreal_block_def Let_def and_then_eq_Inr by blast

lemma Dreal_block_settings:
  "Dreal_block orc m ph a b dic2 l = Inr (l', m') \<Longrightarrow> same_settings m m'"
  by (drule Dreal_block_model) (simp add: same_settings_def)

lemma accumulate_gradients_Inr_iff:
  "accumulate_gradients orc m ph ri rc gz gc sync gain dic2 = Inr (l, m') \<longleftrightarrow>
     known_phase ph \<and>
     (\<exists>l1 l2 m2 l3.
        (if do_Gmain ph then Gmain_block orc m ph dic2 Map.empty else Inr Map.empty) = Inr l1
      \<and> (if do_Gpl m ph then Gpl_block orc m ph dic2 l1 else Inr (l1, m)) = Inr (l2, m2)
      \<and> (if do_Dmain ph then Dgen_block orc m2 ph dic2 l2 else Inr l2) = Inr l3
      \<and> (if do_Dmain ph \<or> do_Dr1 m ph
          then Dreal_block orc m2 ph (do_Dmain ph) (do_Dr1 m ph) dic2 l3
          else Inr (l3, m2)) = Inr (l, m'))"
  by (simp add: accumulate_gradients_def and_then_eq_Inr)

lemma accumulate_gradients_settings:
  assumes "accumulate_gradients orc m ph ri rc gz gc sync gain dic2 = Inr (l, m')"
  shows "same_settings m m'"
proof -
  from assms obtain l1 l2 m2 l3 where
    a: "(if do_Gpl m ph then Gpl_block orc m ph dic2 l1 else Inr (l1, m)) = Inr (l2, m2)"
    and b: "(if do_Dmain ph \<or> do_Dr1 m ph
             then Dreal_block orc m2 ph (do_Dmain ph) (do_Dr1 m ph) dic2 l3
             else Inr (l3, m2)) = Inr (l, m')"
    unfolding accumulate_gradients_Inr_iff by blast
  have "same_settings m m2"
    using a by (auto split: if_splits dest: Gpl_block_settings)
  moreover have "same_settings m2 m'"
    using b by (auto split: if_splits dest: Dreal_block_settings)
  ultimately show ?thesis by (rule same_settings_trans)
qed

lemma Gmain_block_keys:
  "Gmain_block orc m ph (Some d) l = Inr l' \<Longrightarrow> align_grad m \<Longrightarrow>
     {ph @ ''gen_img'', ph @ ''_gen_ws'', ph @ ''gen_logits''} \<subseteq> dom d"
  by (auto simp: Gmain_block_def and_then_eq_Inr align_read_Some)

lemma Dgen_block_keys:
  "Dgen_block orc m ph (Some d) l = Inr l' \<Longrightarrow> align_grad m \<Longrightarrow>
     {ph @ ''gen_img'', ph @ ''_gen_ws'', ph @ ''gen_logits''} \<subseteq> dom d"
  by (auto simp: Dgen_block_def and_then_eq_Inr align_read_Some)

lemma Gpl_block_keys:
  "Gpl_block orc m ph (Some d) l = Inr r \<Longrightarrow> align_grad m \<Longrightarrow>
     {ph @ ''gen_img'', ph @ ''gen_ws'', ph @ ''pl_grads'', ph @ ''pl_lengths''} \<subseteq> dom d"
  by (auto simp: Gpl_block_def and_then_eq_Inr align_read_Some split: if_splits)

lemma Dreal_block_keys:
  assumes "Dreal_block orc m ph a b (Some d) l = Inr r" and "align_grad m"
  shows "ph @ ''real_logits'' \<in> dom d"
    and "a \<Longrightarrow> ph @ ''loss_Dreal'' \<in> dom d"
    and "b \<Longrightarrow> {ph @ ''r1_grads'', ph @ ''r1_penalty''} \<subseteq> dom d"
  using assms
  by (auto simp: Dreal_block_def and_then_eq_Inr align_read_Some Let_def split: if_splits)

lemma accumulate_gradients_keys:
  assumes "accumulate_gradients orc m ph ri rc gz gc sync gain (Some d) = Inr (l, m')"
    and "align_grad m"
  shows "set (phase_keys m ph) \<subseteq> dom d"
proof -
  from assms(1) obtain l1 l2 m2 l3 where
    g: "(if do_Gmain ph then Gmain_block orc m ph (Some d) Map.empty else Inr Map.empty) = Inr l1"
    and p: "(if do_Gpl m ph then Gpl_block orc m ph (Some d) l1 else Inr (l1, m)) = Inr (l2, m2)"
    and dg: "(if do_Dmain ph then Dgen_block orc m2 ph (Some d) l2 else Inr l2) = Inr l3"
    and dr: "(if do_Dmain ph \<or> do_Dr1 m ph
             then Dreal_block orc m2 ph (do_Dmain ph) (do_Dr1 m ph) (Some d) l3
             else Inr (l3, m2)) = Inr (l, m')"
    unfolding accumulate_gradients_Inr_iff by blast
  have "same_settings m m2"
    using p by (auto split: if_splits dest: Gpl_block_settings)
  then have al2: "align_grad m2" using assms(2) by (simp add: same_settings_def)
  have 1: "do_Gmain ph \<Longrightarrow> {ph @ ''gen_img'', ph @ ''_gen_ws'', ph @ ''gen_logits''} \<subseteq> dom d"
    using g assms(2) by (auto dest: Gmain_block_keys)
  have 2: "do_Gpl m ph \<Longrightarrow>
             {ph @ ''gen_img'', ph @ ''gen_ws'', ph @ ''pl_grads'', ph @ ''pl_lengths''} \<subseteq> dom d"
    using p assms(2) by (auto dest: Gpl_block_keys)
  have 3: "do_Dmain ph \<Longrightarrow> {ph @ ''gen_img'', ph @ ''_gen_ws'', ph @ ''gen_logits''} \<subseteq> dom d"
    using dg al2 by (auto dest: Dgen_block_keys)
  have 4: "do_Dmain ph \<or> do_Dr1 m ph \<Longrightarrow> ph @ ''real_logits'' \<in> dom d"
    using dr al2 by (auto dest: Dreal_block_keys(1))
  have 5: "do_Dmain ph \<Longrightarrow> ph @ ''loss_Dreal'' \<in> dom d"
    using dr al2 by (auto dest: Dreal_block_keys(2))
  have 6: "do_Dr1 m ph \<Longrightarrow> {ph @ ''r1_grads'', ph @ ''r1_penalty''} \<subseteq> dom d"
    using dr al2 by (auto dest: Dreal_block_keys(3))
  show ?thesis
    unfolding phase_keys_def using 1 2 3 4 5 6 by auto
qed

lemma dom_add_losses [simp]: "dom (add_losses a b) = dom a \<union> dom b"
  by (auto simp: add_losses_def dom_def split: option.splits)

lemma Gmain_block_dom:
  "Gmain_block orc m ph dic2 l = Inr l' \<Longrightarrow> dom l' = insert ''loss_Gmain'' (dom l)"
  by (auto simp: Gmain_block_def and_then_eq_Inr)

lemma Dgen_block_dom:
  "Dgen_block orc m ph dic2 l = Inr l' \<Longrightarrow> dom l' = insert ''loss_Dgen'' (dom l)"
  by (auto simp: Dgen_block_def and_then_eq_Inr)

lemma Gpl_block_dom:
  "Gpl_block orc m ph dic2 l = Inr (l', m') \<Longrightarrow> dom l' = insert ''loss_Gpl'' (dom l)"
  by (auto simp: Gpl_block_def and_then_eq_Inr Let_def split: if_splits)

lemma Dreal_block_dom:
  assumes "Dreal_block orc m ph a b dic2 l = Inr (l', m')"
  shows "dom l' = dom l \<union> (if a then {''loss_Dreal''} else {}) \<union> (if b then {''loss_Dr1''} else {})"
proof -
  from assms obtain l1 where
    1: "(if a then and_then (align_read m dic2 [ph @ ''loss_Dreal'']) (\<lambda>_.
                        Inr (l(''loss_Dreal'' \<mapsto> loss_value orc ph ''loss_Dreal'')))
          else Inr l) = Inr l1"
    and 2: "(if b then and_then (align_read m dic2 [ph @ ''r1_grads'', ph @ ''r1_penalty'']) (\<lambda>_.
                        Inr (l1(''loss_Dr1'' \<mapsto> loss_value orc ph ''loss_Dr1'')))
          else Inr l1) = Inr l'"
    by (auto simp: Dreal_block_def and_then_eq_Inr Let_def)
  from 1 have "dom l1 = dom l \<union> (if a then {''loss_Dreal''} else {})"
    by (auto simp: and_then_eq_Inr split: if_splits)
  moreover from 2 have "dom l' = dom l1 \<union> (if b then {''loss_Dr1''} else {})"
    by (auto simp: and_then_eq_Inr split: if_splits)
  ultimately show ?thesis by simp
qed

lemma accumulate_gradients_losses:
  assumes "accumulate_gradients orc m ph ri rc gz gc sync gain dic2 = Inr (l, m')"
  shows "dom l = loss_names m ph"
proof -
  from assms obtain l1 l2 m2 l3 where
    g: "(if do_Gmain ph then Gmain_block orc m ph dic2 Map.empty else Inr Map.empty) = Inr l1"
    and p: "(if do_Gpl m ph then Gpl_block orc m ph dic2 l1 else Inr (l1, m)) = Inr (l2, m2)"
    and dg: "(if do_Dmain ph then Dgen_block orc m2 ph dic2 l2 else Inr l2) = Inr l3"
    and dr: "(if do_Dmain ph \<or> do_Dr1 m ph
             then Dreal_block orc m2 ph (do_Dmain ph) (do_Dr1 m ph) dic2 l3
             else Inr (l3, m2)) = Inr (l, m')"
    unfolding accumulate_gradients_Inr_iff by blast
  have 1: "dom l1 = (if do_Gmain ph then {''loss_Gmain''} else {})"
  proof (cases "do_Gmain ph")
    case True
    with g have "Gmain_block orc m ph dic2 Map.empty = Inr l1" by simp
    from Gmain_block_dom[OF this] True show ?thesis by simp
  next
    case False
    with g show ?thesis by auto
  qed
  have 2: "dom l2 = dom l1 \<union> (if do_Gpl m ph then {''loss_Gpl''} else {})"
  proof (cases "do_Gpl m ph")
    case True
    with p have "Gpl_block orc m ph dic2 l1 = Inr (l2, m2)" by simp
    from Gpl_block_dom[OF this] True show ?thesis by simp
  next
    case False
    with p show ?thesis by simp
  qed
  have 3: "dom l3 = dom l2 \<union> (if do_Dmain ph then {''loss_Dgen''} else {})"
  proof (cases "do_Dmain ph")
    case True
    with dg have "Dgen_block orc m2 ph dic2 l2 = Inr l3" by simp
    from Dgen_block_dom[OF this] True show ?thesis by simp
  next
    case False
    with dg show ?thesis by simp
  qed
  have 4: "dom l = dom l3 \<union> (if do_Dmain ph then {''loss_Dreal''} else {})
                         \<union> (if do_Dr1 m ph then {''loss_Dr1''} else {})"
  proof (cases "do_Dmain ph \<or> do_Dr1 m ph")
    case True
    with dr have "Dreal_block orc m2 ph (do_Dmain ph) (do_Dr1 m ph) dic2 l3 = Inr (l, m')"
      by simp
    from Dreal_block_dom[OF this] show ?thesis .
  next
    case False
    with dr show ?thesis by simp
  qed
  show ?thesis
    unfolding loss_names_def 4 3 2 1 by auto
qed

section \<open>Facts about the phase loop\<close>

lemma known_phase_G_or_D: "known_phase nm \<Longrightarrow> CHR ''G'' \<in> set nm \<or> CHR ''D'' \<in> set nm"
  by (auto simp: known_phase_def)

lemma accumulate_rounds_single:
  "accumulate_rounds orc dic2 bs ph 0 [(ri, rc, gz, gc)] (m, ls, calls) = Inr (m', ls', calls') \<longleftrightarrow>
     bs \<noteq> 0 \<and>
     (\<exists>l. accumulate_gradients orc m (name ph) ri rc gz gc True (interval ph) dic2 = Inr (l, m')
          \<and> ls' = add_losses ls l
          \<and> calls' = calls @ [Accumulate (name ph) (interval ph) True])"
  by (auto simp: and_then_eq_Inr Let_def)

lemma accumulate_rounds_settings:
  "accumulate_rounds orc dic2 bs ph i rounds (m, ls, calls) = Inr (m', ls', calls')
     \<Longrightarrow> same_settings m m'"
proof (induction rounds arbitrary: m ls calls i)
  case Nil
  then show ?case by simp
next
  case (Cons r rounds)
  obtain ri rc gz gc where r: "r = (ri, rc, gz, gc)" by (cases r) auto
  from Cons.prems obtain l m2 sync where
    ag: "accumulate_gradients orc m (name ph) ri rc gz gc sync (interval ph) dic2 = Inr (l, m2)"
    and rest: "accumulate_rounds orc dic2 bs ph (Suc i) rounds
                 (m2, add_losses ls l, calls @ [Accumulate (name ph) (interval ph) sync])
               = Inr (m', ls', calls')"
    by (auto simp: r and_then_eq_Inr Let_def split: if_splits)
  have "same_settings m m2" using ag by (rule accumulate_gradients_settings)
  moreover have "same_settings m2 m'" using rest by (rule Cons.IH)
  ultimately show ?case by (rule same_settings_trans)
qed

lemma accumulate_rounds_keys:
  "accumulate_rounds orc (Some d) bs ph i rounds (m, ls, calls) = Inr (m', ls', calls')
     \<Longrightarrow> align_grad m \<Longrightarrow> keys_read d m calls \<Longrightarrow> keys_read d m calls'"
proof (induction rounds arbitrary: m ls calls i)
  case Nil
  then show ?case by simp
next
  case (Cons r rounds)
  obtain ri rc gz gc where r: "r = (ri, rc, gz, gc)" by (cases r) auto
  from Cons.prems(1) obtain l m2 sync where
    ag: "accumulate_gradients orc m (name ph) ri rc gz gc sync (interval ph) (Some d) = Inr (l, m2)"
    and rest: "accumulate_rounds orc (Some d) bs ph (Suc i) rounds
                 (m2, add_losses ls l, calls @ [Accumulate (name ph) (interval ph) sync])
               = Inr (m', ls', calls')"
    by (auto simp: r and_then_eq_Inr Let_def split: if_splits)
  have s: "same_settings m m2" using ag by (rule accumulate_gradients_settings)
  have "set (phase_keys m (name ph)) \<subseteq> dom d"
    using ag Cons.prems(2) by (rule accumulate_gradients_keys)
  with Cons.prems(3) have "keys_read d m (calls @ [Accumulate (name ph) (interval ph) sync])"
    by (auto simp: keys_read_def)
  then have "keys_read d m2 (calls @ [Accumulate (name ph) (interval ph) sync])"
    by (simp add: keys_read_same_settings[OF s])
  moreover have "align_grad m2" using s Cons.prems(2) by (simp add: same_settings_def)
  ultimately have "keys_read d m2 calls'" using Cons.IH[OF rest] by simp
  then show ?case by (simp add: keys_read_same_settings[OF s])
qed

lemma initialize_gradients_Inr:
  "initialize_gradients ph m calls = Inr calls1 \<Longrightarrow> known_phase (name ph) \<Longrightarrow>
     calls1 = calls @ [Zero_grad (optimizer_key (name ph))]"
  by (auto simp: initialize_gradients_def optimizer_key_def split: if_splits option.splits
           dest: known_phase_G_or_D)

lemma initialize_gradients_calls:
  "initialize_gradients ph m calls = Inr calls1 \<Longrightarrow>
     Accumulate nm g s \<in> set calls1 \<longleftrightarrow> Accumulate nm g s \<in> set calls"
  by (auto simp: initialize_gradients_def split: if_splits option.splits)

lemma update_weights_Inr:
  "update_weights orc ph m calls = Inr (m', calls') \<Longrightarrow> known_phase (name ph) \<Longrightarrow>
     calls' = calls @ [Step (optimizer_key (name ph))] \<and> same_settings m m'"
  by (auto simp: update_weights_def optimizer_key_def same_settings_def Let_def
           split: if_splits option.splits dest: known_phase_G_or_D)

lemma update_weights_settings:
  "update_weights orc ph m calls = Inr (m', calls') \<Longrightarrow> same_settings m m'"
  by (auto simp: update_weights_def same_settings_def Let_def split: if_splits option.splits)

lemma update_weights_calls:
  "update_weights orc ph m calls = Inr (m', calls') \<Longrightarrow>
     Accumulate nm g s \<in> set calls' \<longleftrightarrow> Accumulate nm g s \<in> set calls"
  by (auto simp: update_weights_def Let_def split: if_splits option.splits)

text \<open>One executed phase, when the per-device lists are not empty.\<close>

lemma execute_phase_step:
  assumes i: "initialize_gradients ph m calls = Inr calls1"
    and a: "accumulate_rounds orc dic2 bs ph 0 (zip [x] (zip rcs (zip gz gc))) (m, ls, calls1)
              = Inr (m2, ls2, calls2)"
    and u: "update_weights orc ph m2 calls2 = Inr (m3, calls3)"
    and ne: "rcs \<noteq> []" "gz \<noteq> []" "gc \<noteq> []"
  shows "calls3 = calls @ phase_calls ph" and "same_settings m m3" and "bs \<noteq> 0"
    and "\<exists>ri rc z c l. accumulate_gradients orc m (name ph) ri rc z c True (interval ph) dic2 = Inr (l, m2)
           \<and> ls2 = add_losses ls l"
proof -
  obtain r rs where rcs: "rcs = r # rs" using ne(1) by (cases rcs) auto
  obtain g gs where gz: "gz = g # gs" using ne(2) by (cases gz) auto
  obtain c cs where gc: "gc = c # cs" using ne(3) by (cases gc) auto
  from a have a': "accumulate_rounds orc dic2 bs ph 0 [(x, r, g, c)] (m, ls, calls1) = Inr (m2, ls2, calls2)"
    by (simp add: rcs gz gc)
  from a' obtain l where bs: "bs \<noteq> 0"
    and ag: "accumulate_gradients orc m (name ph) x r g c True (interval ph) dic2 = Inr (l, m2)"
    and l2: "ls2 = add_losses ls l"
    and c2: "calls2 = calls1 @ [Accumulate (name ph) (interval ph) True]"
    unfolding accumulate_rounds_single by blast
  have k: "known_phase (name ph)"
    using ag unfolding accumulate_gradients_Inr_iff by blast
  have "same_settings m m2" using ag by (rule accumulate_gradients_settings)
  moreover have "same_settings m2 m3" using update_weights_Inr[OF u k] by simp
  ultimately show "same_settings m m3" by (rule same_settings_trans)
  show "calls3 = calls @ phase_calls ph"
    using initialize_gradients_Inr[OF i k] update_weights_Inr[OF u k] c2
    by (simp add: phase_calls_def)
  show "bs \<noteq> 0" by (rule bs)
  show "\<exists>ri rc z c l. accumulate_gradients orc m (name ph) ri rc z c True (interval ph) dic2 = Inr (l, m2)
           \<and> ls2 = add_losses ls l"
    using ag l2 by blast
qed

lemma execute_phases_Cons_cases:
  assumes "execute_phases orc dic2 bs imgs rcs ((ph, gz, gc) # rest) (m, ls, calls) = Inr res"
  obtains (skip) "interval ph \<noteq> 0" "\<not> due m ph"
      "execute_phases orc dic2 bs imgs rcs rest (m, ls, calls) = Inr res"
  | (run) calls1 m2 ls2 calls2 m3 calls3 where "interval ph \<noteq> 0" "due m ph"
      "initialize_gradients ph m calls = Inr calls1"
      "accumulate_rounds orc dic2 bs ph 0 (zip imgs (zip rcs (zip gz gc))) (m, ls, calls1)
         = Inr (m2, ls2, calls2)"
      "update_weights orc ph m2 calls2 = Inr (m3, calls3)"
      "execute_phases orc dic2 bs imgs rcs rest (m3, ls2, calls3) = Inr res"
proof (cases "due m ph")
  case False
  with assms show ?thesis
    by (intro skip) (auto simp: due_def split: if_splits)
next
  case True
  with assms have i: "interval ph \<noteq> 0" by (auto split: if_splits)
  from assms True i obtain calls1 m2 ls2 calls2 m3 calls3 where
    "initialize_gradients ph m calls = Inr calls1"
    "accumulate_rounds orc dic2 bs ph 0 (zip imgs (zip rcs (zip gz gc))) (m, ls, calls1)
         = Inr (m2, ls2, calls2)"
    "update_weights orc ph m2 calls2 = Inr (m3, calls3)"
    "execute_phases orc dic2 bs imgs rcs rest (m3, ls2, calls3) = Inr res"
    by (auto simp: due_def and_then_eq_Inr)
  with i True show ?thesis by (intro run)
qed

lemma execute_phases_run:
  assumes "execute_phases orc dic2 bs [x] rcs zs (m, ls, calls) = Inr (m', ls', calls')"
    and "rcs \<noteq> []" and "list_all (\<lambda>(ph, gz, gc). gz \<noteq> [] \<and> gc \<noteq> []) zs"
  shows "calls' = calls @ concat (map phase_calls (filter (due m) (map fst zs)))
         \<and> same_settings m m'"
  using assms
proof (induction zs arbitrary: m ls calls)
  case Nil
  then show ?case by simp
next
  case (Cons z zs)
  obtain ph gz gc where z: "z = (ph, gz, gc)" by (cases z) auto
  from Cons.prems(3) have ne: "gz \<noteq> []" "gc \<noteq> []"
    and rest: "list_all (\<lambda>(ph, gz, gc). gz \<noteq> [] \<and> gc \<noteq> []) zs"
    by (simp_all add: z)
  from Cons.prems(1) have
    run: "execute_phases orc dic2 bs [x] rcs ((ph, gz, gc) # zs) (m, ls, calls) = Inr (m', ls', calls')"
    by (simp only: z)
  from run show ?case
  proof (cases rule: execute_phases_Cons_cases)
    case skip
    from Cons.IH[OF skip(3) Cons.prems(2) rest] skip(2) show ?thesis
      by (simp add: z)
  next
    case (run calls1 m2 ls2 calls2 m3 calls3)
    note st = execute_phase_step[OF run(3) run(4) run(5) Cons.prems(2) ne]
    from Cons.IH[OF run(6) Cons.prems(2) rest]
    have "calls' = calls3 @ concat (map phase_calls (filter (due m3) (map fst zs)))"
      and s3: "same_settings m3 m'" by simp_all
    then have "calls' = calls @ phase_calls ph @ concat (map phase_calls (filter (due m) (map fst zs)))"
      using st(1) due_same_settings[OF st(2)] by simp
    moreover have "same_settings m m'" using st(2) s3 by (rule same_settings_trans)
    ultimately show ?thesis using run(2) by (simp add: z)
  qed
qed

lemma execute_phases_settings:
  "execute_phases orc dic2 bs imgs rcs zs (m, ls, calls) = Inr (m', ls', calls')
     \<Longrightarrow> same_settings m m'"
proof (induction zs arbitrary: m ls calls)
  case Nil
  then show ?case by simp
next
  case (Cons z zs)
  obtain ph gz gc where z: "z = (ph, gz, gc)" by (cases z) auto
  from Cons.prems have
    "execute_phases orc dic2 bs imgs rcs ((ph, gz, gc) # zs) (m, ls, calls) = Inr (m', ls', calls')"
    by (simp only: z)
  then show ?case
  proof (cases rule: execute_phases_Cons_cases)
    case skip
    then show ?thesis by (auto dest: Cons.IH)
  next
    case (run calls1 m2 ls2 calls2 m3 calls3)
    have "same_settings m m2" using run(4) by (rule accumulate_rounds_settings)
    moreover have "same_settings m2 m3" using run(5) by (rule update_weights_settings)
    moreover have "same_settings m3 m'" using run(6) by (rule Cons.IH)
    ultimately show ?thesis by (blast intro: same_settings_trans)
  qed
qed

lemma execute_phases_keys:
  "execute_phases orc (Some d) bs imgs rcs zs (m, ls, calls) = Inr (m', ls', calls')
     \<Longrightarrow> align_grad m \<Longrightarrow> keys_read d m calls \<Longrightarrow> keys_read d m calls'"
proof (induction zs arbitrary: m ls calls)
  case Nil
  then show ?case by simp
next
  case (Cons z zs)
  obtain ph gz gc where z: "z = (ph, gz, gc)" by (cases z) auto
  from Cons.prems(1) have
    "execute_phases orc (Some d) bs imgs rcs ((ph, gz, gc) # zs) (m, ls, calls) = Inr (m', ls', calls')"
    by (simp only: z)
  then show ?case
  proof (cases rule: execute_phases_Cons_cases)
    case skip
    from Cons.IH[OF skip(3) Cons.prems(2,3)] show ?thesis .
  next
    case (run calls1 m2 ls2 calls2 m3 calls3)
    have k1: "keys_read d m calls1"
      using Cons.prems(3) initialize_gradients_calls[OF run(3)] by (simp add: keys_read_def)
    have k2: "keys_read d m calls2"
      using run(4) Cons.prems(2) k1 by (rule accumulate_rounds_keys)
    have s2: "same_settings m m2" using run(4) by (rule accumulate_rounds_settings)
    have s3: "same_settings m2 m3" using run(5) by (rule update_weights_settings)
    have s: "same_settings m m3" using s2 s3 by (rule same_settings_trans)
    have "keys_read d m calls3"
      using k2 update_weights_calls[OF run(5)] by (simp add: keys_read_def)
    then have "keys_read d m3 calls3" by (simp add: keys_read_same_settings[OF s])
    moreover have "align_grad m3" using s Cons.prems(2) by (simp add: same_settings_def)
    ultimately have "keys_read d m3 calls'" using Cons.IH[OF run(6)] by simp
    then show ?thesis by (simp add: keys_read_same_settings[OF s])
  qed
qed

lemma execute_phases_losses:
  assumes "execute_phases orc dic2 bs [x] rcs zs (m, ls, calls) = Inr (m', ls', calls')"
    and "rcs \<noteq> []" and "list_all (\<lambda>(ph, gz, gc). gz \<noteq> [] \<and> gc \<noteq> []) zs"
  shows "dom ls' = dom ls \<union> (\<Union>ph \<in> set (filter (due m) (map fst zs)). loss_names m (name ph))"
  using assms
proof (induction zs arbitrary: m ls calls)
  case Nil
  then show ?case by simp
next
  case (Cons z zs)
  obtain ph gz gc where z: "z = (ph, gz, gc)" by (cases z) auto
  from Cons.prems(3) have ne: "gz \<noteq> []" "gc \<noteq> []"
    and rest: "list_all (\<lambda>(ph, gz, gc). gz \<noteq> [] \<and> gc \<noteq> []) zs"
    by (simp_all add: z)
  from Cons.prems(1) have
    "execute_phases orc dic2 bs [x] rcs ((ph, gz, gc) # zs) (m, ls, calls) = Inr (m', ls', calls')"
    by (simp only: z)
  then show ?case
  proof (cases rule: execute_phases_Cons_cases)
    case skip
    from Cons.IH[OF skip(3) Cons.prems(2) rest] skip(2) show ?thesis
      by (simp add: z)
  next
    case (run calls1 m2 ls2 calls2 m3 calls3)
    note st = execute_phase_step[OF run(3) run(4) run(5) Cons.prems(2) ne]
    from st(4) obtain ri rc zz c l where
      ag: "accumulate_gradients orc m (name ph) ri rc zz c True (interval ph) dic2 = Inr (l, m2)"
      and "ls2 = add_losses ls l"
      by blast
    then have l2: "dom ls2 = dom ls \<union> loss_names m (name ph)"
      by (simp add: accumulate_gradients_losses[OF ag])
    from Cons.IH[OF run(6) Cons.prems(2) rest]
    have "dom ls' = dom ls2 \<union> (\<Union>ph \<in> set (filter (due m3) (map fst zs)). loss_names m3 (name ph))" .
    then show ?thesis
      using l2 run(2) due_same_settings[OF st(2)] loss_names_same_settings[OF st(2)]
      by (simp add: z Un_assoc)
  qed
qed

section \<open>Facts about the EMA tracker\<close>

lemma blend_parameters_one: "blend_parameters 1 ema live = ema"
proof -
  have "map (\<lambda>(p_ema, p). lerp p p_ema 1) (zip ema live) = map fst (zip ema live)"
    by (rule map_cong) (auto simp: lerp_def)
  also have "\<dots> = take (length live) ema"
    by (simp add: map_fst_zip_take min_def)
  finally show ?thesis
    by (simp add: blend_parameters_def min_def)
qed

lemma blend_parameters_zero:
  "blend_parameters 0 ema live = take (length ema) live @ drop (length live) ema"
proof -
  have "map (\<lambda>(p_ema, p). lerp p p_ema 0) (zip ema live) = map snd (zip ema live)"
    by (rule map_cong) (auto simp: lerp_def)
  also have "\<dots> = take (length ema) live"
    by (simp add: map_snd_zip_take min_def)
  finally show ?thesis
    by (simp add: blend_parameters_def min_def)
qed

lemma blend_parameters_length [simp]:
  "length (blend_parameters b ema live) = length ema"
  by (simp add: blend_parameters_def)

lemma blend_parameters_nth:
  assumes "i < min (length ema) (length live)"
  shows "blend_parameters b ema live ! i = b * ema ! i + (1 - b) * live ! i"
proof -
  from assms have "blend_parameters b ema live ! i = lerp (live ! i) (ema ! i) b"
    by (simp add: blend_parameters_def nth_append)
  then show ?thesis by (simp add: lerp_def algebra_simps)
qed

lemma copy_buffers_length [simp]: "length (copy_buffers ema live) = length ema"
  by (simp add: copy_buffers_def)

lemma copy_buffers_nth:
  "i < min (length ema) (length live) \<Longrightarrow> copy_buffers ema live ! i = live ! i"
  by (simp add: copy_buffers_def nth_append)

section \<open>Facts about the adaptive augmentation controller\<close>

lemma ada_heuristic_idle:
  "ada_heuristic m dic2 bs = Inr m' \<Longrightarrow>
     \<not> (adjust_p m \<and> augment_pipe m \<noteq> None \<and> batch_idx m mod ada_interval m = 0) \<Longrightarrow> m' = m"
  by (auto simp: ada_heuristic_def split: option.splits if_splits)

lemma ada_heuristic_fired:
  assumes "ada_heuristic m dic2 bs = Inr m'"
    and "adjust_p m" and "augment_pipe m = Some p"
    and "batch_idx m mod ada_interval m = 0"
  shows "\<exists>target. ada_target m = Some target \<and> concat (Loss_signs_real m) \<noteq> []
           \<and> ada_kimg m * 1000 \<noteq> 0 \<and> ada_interval m \<noteq> 0
           \<and> align_read m dic2 [''augment_pipe_p'', ''aaaaaaaaaa1''] = Inr ()
           \<and> m' = m\<lparr>augment_pipe :=
                       Some (max (p + sgn (sum_list (concat (Loss_signs_real m))
                                            / real (length (concat (Loss_signs_real m))) - target)
                                     * (real bs * real_of_int (ada_interval m))
                                     / (ada_kimg m * 1000)) 0),
                    Loss_signs_real := []\<rparr>"
  using assms
  by (auto simp: ada_heuristic_def and_then_eq_Inr Let_def constant_tensor_def
           split: option.splits if_splits)

lemma ada_heuristic_rest:
  assumes "ada_heuristic m dic2 bs = Inr m'"
  shows "mapping m' = mapping m \<and> synthesis m' = synthesis m
         \<and> mapping_ema m' = mapping_ema m \<and> synthesis_ema m' = synthesis_ema m
         \<and> cur_nimg m' = cur_nimg m \<and> batch_idx m' = batch_idx m
         \<and> align_grad m' = align_grad m"
proof (cases "adjust_p m \<and> augment_pipe m \<noteq> None \<and> batch_idx m mod ada_interval m = 0")
  case False
  with assms have "m' = m" by (rule ada_heuristic_idle)
  then show ?thesis by simp
next
  case True
  then obtain p where "augment_pipe m = Some p" by auto
  from ada_heuristic_fired[OF assms _ this] True show ?thesis by auto
qed

lemma ada_heuristic_nonneg:
  assumes "ada_heuristic m dic2 bs = Inr m'" and "augment_pipe m = Some p" and "0 \<le> p"
  shows "\<exists>p'. augment_pipe m' = Some p' \<and> 0 \<le> p'"
proof (cases "adjust_p m \<and> batch_idx m mod ada_interval m = 0")
  case False
  with assms(1) have "m' = m" by (auto dest: ada_heuristic_idle)
  with assms(2,3) show ?thesis by simp
next
  case True
  from ada_heuristic_fired[OF assms(1) _ assms(2)] True show ?thesis by auto
qed

section \<open>The training iteration, taken apart\<close>

lemma train_iter_Inr_iff:
  "train_iter ev orc rank m = Inr (ls, m', calls) \<longleftrightarrow>
     (\<exists>inp dic2 bs zrows pz az agc imgs rcs m1.
        input m = Some inp
      \<and> load_reference ev m rank inp = Inr (dic2, bs)
      \<and> draw_all_gen_z m dic2 bs = Inr zrows
      \<and> split_sizes zrows bs = Inr pz
      \<and> map_err (\<lambda>z. split_sizes z bs) pz = Inr az
      \<and> split_gen_c m inp bs 1 = Inr agc
      \<and> split_sizes bs bs = Inr imgs
      \<and> split_real_c m inp bs = Inr rcs
      \<and> execute_phases orc dic2 bs imgs rcs (zip (phases m) (zip az agc)) (m, Map.empty, [])
            = Inr (m1, ls, calls)
      \<and> align_read (advance_counters (update_ema m1 bs) bs) dic2 [''w_avg''] = Inr ()
      \<and> ada_heuristic (advance_counters (update_ema m1 bs) bs) dic2 bs = Inr m')"
  by (auto simp: train_iter_def and_then_eq_Inr Let_def split: option.splits)

lemma load_reference_align:
  "align_grad m \<Longrightarrow>
     load_reference ev m rank inp = Inr (dic2, bs) \<longleftrightarrow>
       (\<exists>d. files ev (npz_path (is_debug ev) (batch_idx m) rank) = Some d
            \<and> d ''phase_real_img'' = Some bs \<and> dic2 = Some d)"
  by (auto simp: load_reference_def dic2_get_def Let_def split: option.splits)

lemma split_gen_c_Inr:
  assumes "split_gen_c m inp bs 1 = Inr agc"
  shows "list_all (\<lambda>c. c \<noteq> []) agc"
    and "phases_all_gen_c inp \<noteq> []"
    and "length agc = (if snd (hd (phases_all_gen_c inp)) > 0 then length (phases_all_gen_c inp)
                       else length (phases m))"
proof -
  from assms obtain g gs where g: "phases_all_gen_c inp = g # gs"
    by (auto simp: split_gen_c_def split: list.splits)
  show "phases_all_gen_c inp \<noteq> []" by (simp add: g)
  show "list_all (\<lambda>c. c \<noteq> []) agc"
  proof (cases "snd g > 0")
    case True
    with assms g have "map_err (\<lambda>phase_gen_c.
                 and_then (split_sizes (fst phase_gen_c) bs) (\<lambda>cs. Inr (map Label_rows cs)))
               (phases_all_gen_c inp) = Inr agc"
      by (simp add: split_gen_c_def)
    then show ?thesis
      by (rule map_err_nonempty[THEN conjunct2])
         (auto simp: and_then_eq_Inr dest: split_sizes_nonempty)
  next
    case False
    with assms g show ?thesis by (auto simp: split_gen_c_def list_all_iff)
  qed
  show "length agc = (if snd (hd (phases_all_gen_c inp)) > 0 then length (phases_all_gen_c inp)
                       else length (phases m))"
  proof (cases "snd g > 0")
    case True
    with assms g have "map_err (\<lambda>phase_gen_c.
                 and_then (split_sizes (fst phase_gen_c) bs) (\<lambda>cs. Inr (map Label_rows cs)))
               (phases_all_gen_c inp) = Inr agc"
      by (simp add: split_gen_c_def)
    then have "length agc = length (phases_all_gen_c inp)"
      by (rule map_err_nonempty[THEN conjunct1])
         (auto simp: and_then_eq_Inr dest: split_sizes_nonempty)
    with True g show ?thesis by simp
  next
    case False
    with assms g show ?thesis by (auto simp: split_gen_c_def)
  qed
qed

lemma split_real_c_Inr:
  "split_real_c m inp bs = Inr rcs \<Longrightarrow> rcs \<noteq> [] \<or> phases m = []"
  by (auto simp: split_real_c_def and_then_eq_Inr split: if_splits dest: split_sizes_nonempty)

lemma zip_nonempty_chunks:
  assumes "list_all (\<lambda>z. z \<noteq> []) az" and "list_all (\<lambda>c. c \<noteq> []) agc"
  shows "list_all (\<lambda>(ph, gz, gc). gz \<noteq> [] \<and> gc \<noteq> []) (zip phs (zip az agc))"
  unfolding list_all_iff
proof
  fix x assume x: "x \<in> set (zip phs (zip az agc))"
  obtain ph gz gc where p: "x = (ph, gz, gc)" by (cases x) auto
  from x p have "(gz, gc) \<in> set (zip az agc)" by (auto dest: set_zip_rightD)
  then have "gz \<in> set az" and "gc \<in> set agc"
    by (auto dest: set_zip_leftD set_zip_rightD)
  with assms show "case x of (ph, gz, gc) \<Rightarrow> gz \<noteq> [] \<and> gc \<noteq> []"
    by (simp add: p list_all_iff)
qed

lemma map_fst_zip_enough:
  "length phs \<le> length az \<Longrightarrow> length phs \<le> length agc \<Longrightarrow>
     map fst (zip phs (zip az agc)) = phs"
  by (simp add: map_fst_zip_take)

lemma train_iter_augment_pipe:
  assumes "train_iter ev orc rank m = Inr (ls, m', calls)"
    and "augment_pipe m = Some p" and "0 \<le> p"
  shows "\<exists>p'. augment_pipe m' = Some p' \<and> 0 \<le> p'"
proof -
  from assms(1) obtain dic2 bs imgs rcs zs m1 where
    ex: "execute_phases orc dic2 bs imgs rcs zs (m, Map.empty, []) = Inr (m1, ls, calls)"
    and ada: "ada_heuristic (advance_counters (update_ema m1 bs) bs) dic2 bs = Inr m'"
    unfolding train_iter_Inr_iff by blast
  have "augment_pipe m1 = Some p"
    using execute_phases_settings[OF ex] assms(2) by (simp add: same_settings_def)
  then have "augment_pipe (advance_counters (update_ema m1 bs) bs) = Some p"
    by (simp add: advance_counters_def update_ema_def Let_def)
  from ada_heuristic_nonneg[OF ada this assms(3)] show ?thesis .
qed

lemma train_iter_align_grad:
  assumes "train_iter ev orc rank m = Inr (ls, m', calls)"
  shows "align_grad m' = align_grad m"
proof -
  from assms obtain dic2 bs imgs rcs zs m1 where
    ex: "execute_phases orc dic2 bs imgs rcs zs (m, Map.empty, []) = Inr (m1, ls, calls)"
    and ada: "ada_heuristic (advance_counters (update_ema m1 bs) bs) dic2 bs = Inr m'"
    unfolding train_iter_Inr_iff by blast
  from execute_phases_settings[OF ex] ada_heuristic_rest[OF ada] show ?thesis
    by (simp add: same_settings_def advance_counters_def update_ema_def Let_def)
qed

lemma train_in_iter_align_grad:
  "train_in_iter steps m = Inr m' \<Longrightarrow> align_grad m' = align_grad m"
proof (induction steps arbitrary: m)
  case Nil
  then show ?case by simp
next
  case (Cons step steps)
  obtain ev orc data where step: "step = (ev, orc, data)" by (cases step) auto
  from Cons.prems obtain outputs m1 calls where
    it: "train_iter ev orc 0 (setup_input m data) = Inr (outputs, m1, calls)"
    and rest: "train_in_iter steps m1 = Inr m'"
    by (auto simp: step split: sum.splits)
  from train_iter_align_grad[OF it] Cons.IH[OF rest] show ?case
    by (simp add: setup_input_def)
qed

text \<open>
  A call that completes on at least one image, with one block of noise per phase: the
  counters advance by the number of images the iteration went on with and by 1, and the
  returned mapping has exactly the loss names of the phases that were due.
\<close>

lemma train_iter_completed:
  assumes run: "train_iter ev orc rank m = Inr (loss_numpys, m', calls)"
    and inp: "input m = Some inp"
    and ref: "load_reference ev m rank inp = Inr (dic2, batch_size)"
    and pos: "0 < batch_size"
    and noise: "draw_all_gen_z m dic2 batch_size = Inr (length (phases m) * batch_size)"
    and labels: "0 < snd (hd (phases_all_gen_c inp))
                   \<longrightarrow> length (phases m) \<le> length (phases_all_gen_c inp)"
  shows "cur_nimg m' = cur_nimg m + int batch_size"
    and "batch_idx m' = batch_idx m + 1"
    and "dom loss_numpys = (\<Union>ph \<in> set (filter (due m) (phases m)). loss_names m (name ph))"
proof -
  from run inp ref noise obtain pz az agc imgs rcs m1 where
    pz: "split_sizes (length (phases m) * batch_size) batch_size = Inr pz"
    and az: "map_err (\<lambda>z. split_sizes z batch_size) pz = Inr az"
    and agc: "split_gen_c m inp batch_size 1 = Inr agc"
    and imgs: "split_sizes batch_size batch_size = Inr imgs"
    and rcs: "split_real_c m inp batch_size = Inr rcs"
    and ex: "execute_phases orc dic2 batch_size imgs rcs (zip (phases m) (zip az agc))
               (m, Map.empty, []) = Inr (m1, loss_numpys, calls)"
    and ada: "ada_heuristic (advance_counters (update_ema m1 batch_size) batch_size) dic2 batch_size
                = Inr m'"
    unfolding train_iter_Inr_iff by auto
  note s = execute_phases_settings[OF ex, unfolded same_settings_def]
  note a = ada_heuristic_rest[OF ada]
  show "cur_nimg m' = cur_nimg m + int batch_size"
    using a s by (simp add: advance_counters_def update_ema_def Let_def)
  show "batch_idx m' = batch_idx m + 1"
    using a s by (simp add: advance_counters_def update_ema_def Let_def)
  have imgs': "imgs = [batch_size]" using imgs by (rule split_sizes_self)
  have az': "length az = length pz" "list_all (\<lambda>z. z \<noteq> []) az"
    using map_err_nonempty[OF az] split_sizes_nonempty by auto
  have len_z: "length (phases m) \<le> length az"
    using split_sizes_multiple[OF pos pz] az'(1) by simp
  have len_c: "length (phases m) \<le> length agc"
    using split_gen_c_Inr(3)[OF agc] labels by (auto split: if_splits)
  have chunks: "list_all (\<lambda>(ph, gz, gc). gz \<noteq> [] \<and> gc \<noteq> []) (zip (phases m) (zip az agc))"
    using az'(2) split_gen_c_Inr(1)[OF agc] by (rule zip_nonempty_chunks)
  have fst: "map fst (zip (phases m) (zip az agc)) = phases m"
    using len_z len_c by (rule map_fst_zip_enough)
  show "dom loss_numpys = (\<Union>ph \<in> set (filter (due m) (phases m)). loss_names m (name ph))"
  proof (cases "phases m = []")
    case True
    with ex show ?thesis by simp
  next
    case False
    then have "rcs \<noteq> []" using split_real_c_Inr[OF rcs] by simp
    from execute_phases_losses[OF ex[unfolded imgs'] this chunks] fst
    show ?thesis by simp
  qed
qed

section \<open>Evaluating the concrete run\<close>

lemmas eval_defs =
  train_iter_def example_model_def setup_input_def StyleGANv2ADAModel_def example_kwargs_def
  example_batch_def example_env_def example_opaque_def example_npz_def load_reference_def
  dic2_get_def draw_all_gen_z_def split_sizes_def split_gen_c_def split_real_c_def
  replicate_numeral initialize_gradients_def update_weights_def accumulate_gradients_def
  known_phase_def do_Gmain_def do_Dmain_def do_Gpl_def do_Dr1_def Gmain_block_def Gpl_block_def
  Dgen_block_def Dreal_block_def align_read_def run_D_def lerp_def update_ema_def
  advance_counters_def ada_heuristic_def constant_tensor_def Let_def

lemma example_run_4:
  "\<exists>r. train_iter example_env (example_opaque (- 1)) 0 (example_model\<lparr>batch_idx := 4\<rparr>) = Inr r"
  by (simp add: eval_defs)

lemma example_run_0:
  "\<exists>loss_numpys m' calls.
     train_iter example_env (example_opaque (- 1)) 0 example_model = Inr (loss_numpys, m', calls)
     \<and> cur_nimg m' = 8 \<and> parameters (mapping m') = [4]
     \<and> Accumulate ''Gmain'' 1 True \<in> set calls"
  by (simp add: eval_defs)

lemma example_two_iterations:
  "\<exists>m'. train_in_iter [(example_env, example_opaque 1, example_batch),
                        (example_env, example_opaque (- 1), example_batch)]
           (StyleGANv2ADAModel example_kwargs) = Inr m'"
proof -
  have "\<exists>y::real. y * 62500 = 1"
    by (rule exI[of _ "1 / 62500"]) simp
  then show ?thesis by (simp add: eval_defs)
qed

section \<open>Phases and their intervals\<close>

text \<open>
  Claim C1. Take a call of \<open>train_iter\<close> that completes, on a batch of at least one
  real image, with the noise tensor of the data model (one block of \<open>batch_size\<close> rows
  per phase) and, for conditional labels, a label tensor per phase. Then the calls made on
  the collaborators are exactly the calls of the phases whose interval divides the current
  batch index (\<open>batch_idx mod interval = 0\<close>), phase after phase in schedule order:
  every such phase is executed (\<open>zero_grad\<close>, one gradient accumulation, \<open>step\<close>), and
  a phase whose condition fails contributes no call at all.
\<close>

theorem phases_run_iff_due:
  assumes run: "train_iter ev orc rank m = Inr (loss_numpys, m', calls)"
    and inp: "input m = Some inp"
    and ref: "load_reference ev m rank inp = Inr (dic2, batch_size)"
    and pos: "0 < batch_size"
    and noise: "draw_all_gen_z m dic2 batch_size = Inr (length (phases m) * batch_size)"
    and labels: "0 < snd (hd (phases_all_gen_c inp))
                   \<longrightarrow> length (phases m) \<le> length (phases_all_gen_c inp)"
  shows "calls = concat (map phase_calls
                   (filter (\<lambda>ph. batch_idx m mod interval ph = 0) (phases m)))"
proof -
  from run inp ref noise obtain pz az agc imgs rcs m1 where
    pz: "split_sizes (length (phases m) * batch_size) batch_size = Inr pz"
    and az: "map_err (\<lambda>z. split_sizes z batch_size) pz = Inr az"
    and agc: "split_gen_c m inp batch_size 1 = Inr agc"
    and imgs: "split_sizes batch_size batch_size = Inr imgs"
    and rcs: "split_real_c m inp batch_size = Inr rcs"
    and ex: "execute_phases orc dic2 batch_size imgs rcs (zip (phases m) (zip az agc))
               (m, Map.empty, []) = Inr (m1, loss_numpys, calls)"
    unfolding train_iter_Inr_iff by auto
  have imgs': "imgs = [batch_size]" using imgs by (rule split_sizes_self)
  have az': "length az = length pz" "list_all (\<lambda>z. z \<noteq> []) az"
    using map_err_nonempty[OF az] split_sizes_nonempty by auto
  have len_z: "length (phases m) \<le> length az"
    using split_sizes_multiple[OF pos pz] az'(1) by simp
  have len_c: "length (phases m) \<le> length agc"
    using split_gen_c_Inr(3)[OF agc] labels by (auto split: if_splits)
  have chunks: "list_all (\<lambda>(ph, gz, gc). gz \<noteq> [] \<and> gc \<noteq> []) (zip (phases m) (zip az agc))"
    using az'(2) split_gen_c_Inr(1)[OF agc] by (rule zip_nonempty_chunks)
  have fst: "map fst (zip (phases m) (zip az agc)) = phases m"
    using len_z len_c by (rule map_fst_zip_enough)
  show ?thesis
  proof (cases "phases m = []")
    case True
    with ex show ?thesis by simp
  next
    case False
    then have "rcs \<noteq> []" using split_real_c_Inr[OF rcs] by simp
    from execute_phases_run[OF ex[unfolded imgs'] this chunks] fst
    show ?thesis by (simp add: due_def[abs_def])
  qed
qed

text \<open>
  The run of the example at batch index 4: \<open>Gmain\<close>, \<open>Greg\<close> and \<open>Dmain\<close> are
  executed in this order, \<open>Dreg\<close> (interval 16) is skipped.
\<close>

theorem phases_run_iff_due_witness:
  "\<exists>loss_numpys m'.
     train_iter example_env (example_opaque (- 1)) 0 (example_model\<lparr>batch_idx := 4\<rparr>)
       = Inr (loss_numpys, m',
              [Zero_grad ''optimizer_G'', Accumulate ''Gmain'' 1 True, Step ''optimizer_G'',
               Zero_grad ''optimizer_G'', Accumulate ''Greg'' 4 True, Step ''optimizer_G'',
               Zero_grad ''optimizer_D'', Accumulate ''Dmain'' 1 True, Step ''optimizer_D''])"
proof -
  obtain loss_numpys m' calls where
    run: "train_iter example_env (example_opaque (- 1)) 0 (example_model\<lparr>batch_idx := 4\<rparr>)
            = Inr (loss_numpys, m', calls)"
    using example_run_4 by auto
  have "calls = concat (map phase_calls
                  (filter (\<lambda>ph. batch_idx (example_model\<lparr>batch_idx := 4\<rparr>) mod interval ph = 0)
                     (phases (example_model\<lparr>batch_idx := 4\<rparr>))))"
    by (rule phases_run_iff_due[OF run, of example_batch "Some example_npz" 8])
       (simp_all add: eval_defs)
  then have "calls =
      [Zero_grad ''optimizer_G'', Accumulate ''Gmain'' 1 True, Step ''optimizer_G'',
       Zero_grad ''optimizer_G'', Accumulate ''Greg'' 4 True, Step ''optimizer_G'',
       Zero_grad ''optimizer_D'', Accumulate ''Dmain'' 1 True, Step ''optimizer_D'']"
    by (simp add: eval_defs phase_calls_def optimizer_key_def)
  with run show ?thesis by blast
qed

section \<open>The phase schedule\<close>

text \<open>
  Claim C2. The constructor builds the phase list role by role, in the order G, D: a role
  whose regularization interval is \<open>None\<close> contributes exactly one phase, named
  \<open><role>both\<close>, with interval 1; a role whose interval is an integer \<open>k\<close> contributes
  exactly two phases, \<open><role>main\<close> with interval 1 followed by \<open><role>reg\<close> with
  interval \<open>k\<close>. The four combinations of the two roles are listed; the equations hold
  for every integer, in particular for the positive ones.
\<close>

theorem phase_schedule_construction:
  "phases (StyleGANv2ADAModel (kw\<lparr>kw_G_reg_interval := None, kw_D_reg_interval := None\<rparr>))
     = [\<lparr>name = ''Gboth'', interval = 1\<rparr>, \<lparr>name = ''Dboth'', interval = 1\<rparr>]
   \<and> phases (StyleGANv2ADAModel (kw\<lparr>kw_G_reg_interval := None, kw_D_reg_interval := Some j\<rparr>))
     = [\<lparr>name = ''Gboth'', interval = 1\<rparr>,
        \<lparr>name = ''Dmain'', interval = 1\<rparr>, \<lparr>name = ''Dreg'', interval = j\<rparr>]
   \<and> phases (StyleGANv2ADAModel (kw\<lparr>kw_G_reg_interval := Some k, kw_D_reg_interval := None\<rparr>))
     = [\<lparr>name = ''Gmain'', interval = 1\<rparr>, \<lparr>name = ''Greg'', interval = k\<rparr>,
        \<lparr>name = ''Dboth'', interval = 1\<rparr>]
   \<and> phases (StyleGANv2ADAModel (kw\<lparr>kw_G_reg_interval := Some k, kw_D_reg_interval := Some j\<rparr>))
     = [\<lparr>name = ''Gmain'', interval = 1\<rparr>, \<lparr>name = ''Greg'', interval = k\<rparr>,
        \<lparr>name = ''Dmain'', interval = 1\<rparr>, \<lparr>name = ''Dreg'', interval = j\<rparr>]"
  by (simp add: StyleGANv2ADAModel_def)

section \<open>Style mixing\<close>

text \<open>
  Claim C3 says that a configured \<open>style_mixing_prob\<close> greater than 0 makes style mixing
  occur with that probability. The constructor stores the argument and overwrites it with
  \<open>-1.0\<close> on the next line, so for the configured value 0.9 the attribute is \<open>-1\<close> and
  the style-mixing block of \<open>run_G\<close> is not entered, whatever the random draws are.
\<close>

theorem style_mixing_never_runs:
  "style_mixing_prob (StyleGANv2ADAModel (kw\<lparr>kw_style_mixing_prob := 9 / 10\<rparr>)) = - 1
   \<and> style_mixing_cutoff orc (StyleGANv2ADAModel (kw\<lparr>kw_style_mixing_prob := 9 / 10\<rparr>)) num_ws
       = None"
  by (simp add: StyleGANv2ADAModel_def style_mixing_cutoff_def)

section \<open>Pre-scaled optimizer hyperparameters\<close>

text \<open>
  Claim C4 says that every role with a positive regularization interval gets an optimizer
  with the pre-scaled learning rate and momentum coefficients. With
  \<open>G_reg_interval = None\<close> and \<open>D_reg_interval = 16\<close> the role D has a positive
  interval, but \<open>before_train\<close> reads the unbound local variable \<open>new_lr\<close> in the first
  round of its loop and raises before any optimizer is constructed.
\<close>

theorem before_train_unbound_new_lr:
  "before_train (ex\<lparr>G_reg_interval := None, D_reg_interval := Some 16\<rparr>) batch_size
     = Inl (UnboundLocalError ''new_lr'')"
  by (simp add: before_train_def)

text \<open>
  When both roles have an interval of at least 1 and the coefficients configured for the
  generator are not negative, \<open>before_train\<close> reaches the construction of the optimizers:
  each role gets the learning rate \<open>lr * k / (k + 1)\<close> and the coefficients
  \<open>beta ** (k / (k + 1))\<close> for its own interval \<open>k\<close>, where \<open>beta1\<close> and \<open>beta2\<close>
  are, for both roles, the entries of \<open>optimizer_cfg['generator']\<close> as they were before
  the loop.
\<close>

lemma before_train_prescaled:
  assumes G: "G_reg_interval ex = Some kG" and D: "D_reg_interval ex = Some kD"
    and k: "1 \<le> kG" "1 \<le> kD"
    and b: "0 \<le> beta1 (cfg_generator ex)" "0 \<le> beta2 (cfg_generator ex)"
  shows "before_train ex batch_size =
     Inr \<lparr>base_lr_G = Some (basic_lr_per_img ex * real_of_int batch_size
                              * (real_of_int kG / real_of_int (kG + 1))),
          base_lr_D = Some (basic_lr_per_img ex * real_of_int batch_size
                              * (real_of_int kD / real_of_int (kD + 1))),
          exp = ex\<lparr>cfg_generator :=
                     \<lparr>beta1 = beta1 (cfg_generator ex) powr (real_of_int kG / real_of_int (kG + 1)),
                      beta2 = beta2 (cfg_generator ex) powr (real_of_int kG / real_of_int (kG + 1))\<rparr>,
                   cfg_discriminator :=
                     \<lparr>beta1 = beta1 (cfg_generator ex) powr (real_of_int kD / real_of_int (kD + 1)),
                      beta2 = beta2 (cfg_generator ex) powr (real_of_int kD / real_of_int (kD + 1))\<rparr>\<rparr>\<rparr>"
proof -
  have rG: "0 < real_of_int kG / (real_of_int kG + 1)"
    and rD: "0 < real_of_int kD / (real_of_int kD + 1)"
    using k by simp_all
  have nz: "kG + 1 \<noteq> 0" "kD + 1 \<noteq> 0" using k by simp_all
  show ?thesis
    using nz by (simp add: before_train_def G D py_pow_nonneg[OF b(1) rG] py_pow_nonneg[OF b(2) rG]
          py_pow_nonneg[OF b(1) rD] py_pow_nonneg[OF b(2) rD] Let_def)
qed

section \<open>The EMA update\<close>

text \<open>
  Claim C5. In a call of \<open>train_iter\<close> that completes and advances \<open>cur_nimg\<close> by
  \<open>batch_size\<close>, let \<open>ema_nimg\<close> be \<open>ema_kimg * 1000\<close>, replaced by
  \<open>min(ema_nimg, cur_nimg * ema_rampup)\<close> when \<open>ema_rampup\<close> is configured (with
  \<open>cur_nimg\<close> as it was before the call), and
  \<open>beta = 0.5 ** (batch_size / max(ema_nimg, 1e-8))\<close>. Then for the mapping and the
  synthesis network every pair of an EMA parameter and the live parameter at the same
  position satisfies \<open>ema_new = beta * ema_old + (1 - beta) * live\<close>, every EMA buffer
  equals the live buffer at the same position, and the lists keep their lengths. Floats
  are real numbers here, so the equation is exact.
\<close>

theorem ema_update_formula:
  assumes run: "train_iter ev orc rank m = Inr (loss_numpys, m', calls)"
    and N: "cur_nimg m' = cur_nimg m + int batch_size"
    and nimg: "ema_nimg = (case ema_rampup m of
                             None \<Rightarrow> ema_kimg m * 1000
                           | Some rampup \<Rightarrow>
                               min (ema_kimg m * 1000) (real_of_int (cur_nimg m) * rampup))"
    and beta: "beta = (1 / 2) powr (real batch_size / max ema_nimg (1 / 10 ^ 8))"
  shows "(\<forall>i < min (length (parameters (mapping_ema m))) (length (parameters (mapping m'))).
            parameters (mapping_ema m') ! i
              = beta * parameters (mapping_ema m) ! i + (1 - beta) * parameters (mapping m') ! i)
       \<and> (\<forall>i < min (length (parameters (synthesis_ema m))) (length (parameters (synthesis m'))).
            parameters (synthesis_ema m') ! i
              = beta * parameters (synthesis_ema m) ! i + (1 - beta) * parameters (synthesis m') ! i)
       \<and> (\<forall>i < min (length (buffers (mapping_ema m))) (length (buffers (mapping m'))).
            buffers (mapping_ema m') ! i = buffers (mapping m') ! i)
       \<and> (\<forall>i < min (length (buffers (synthesis_ema m))) (length (buffers (synthesis m'))).
            buffers (synthesis_ema m') ! i = buffers (synthesis m') ! i)
       \<and> length (parameters (mapping_ema m')) = length (parameters (mapping_ema m))
       \<and> length (parameters (synthesis_ema m')) = length (parameters (synthesis_ema m))
       \<and> length (buffers (mapping_ema m')) = length (buffers (mapping_ema m))
       \<and> length (buffers (synthesis_ema m')) = length (buffers (synthesis_ema m))"
proof -
  from run obtain dic2 bs imgs rcs zs m1 where
    ex: "execute_phases orc dic2 bs imgs rcs zs (m, Map.empty, []) = Inr (m1, loss_numpys, calls)"
    and ada: "ada_heuristic (advance_counters (update_ema m1 bs) bs) dic2 bs = Inr m'"
    unfolding train_iter_Inr_iff by blast
  note s = execute_phases_settings[OF ex, unfolded same_settings_def]
  note a = ada_heuristic_rest[OF ada]
  have "cur_nimg m' = cur_nimg m + int bs"
    using a s by (simp add: advance_counters_def update_ema_def Let_def)
  with N have bs: "bs = batch_size" by simp
  have b: "compute_ema_beta m1 bs = beta"
    using s by (simp add: compute_ema_beta_def Let_def beta nimg bs split: option.splits)
  have live: "mapping m' = mapping m1" "synthesis m' = synthesis m1"
    using a by (simp_all add: advance_counters_def update_ema_def Let_def)
  have me: "mapping_ema m' = \<lparr>parameters = blend_parameters beta (parameters (mapping_ema m))
                                               (parameters (mapping m')),
                              buffers = copy_buffers (buffers (mapping_ema m)) (buffers (mapping m'))\<rparr>"
    using a s b live by (simp add: advance_counters_def update_ema_def Let_def)
  have se: "synthesis_ema m' = \<lparr>parameters = blend_parameters beta (parameters (synthesis_ema m))
                                               (parameters (synthesis m')),
                              buffers = copy_buffers (buffers (synthesis_ema m)) (buffers (synthesis m'))\<rparr>"
    using a s b live by (simp add: advance_counters_def update_ema_def Let_def)
  show ?thesis
    by (simp add: me se blend_parameters_nth copy_buffers_nth)
qed

text \<open>
  The first iteration of the example: \<open>beta = 0.5 ** (8 / 10000)\<close>, and the EMA copy of
  the mapping parameter, 0 before, is blended with the live value 4.
\<close>

theorem ema_update_formula_witness:
  "\<exists>loss_numpys m' calls.
     train_iter example_env (example_opaque (- 1)) 0 example_model = Inr (loss_numpys, m', calls)
     \<and> parameters (mapping_ema m') ! 0
         = (1 / 2) powr (8 / 10000) * 0 + (1 - (1 / 2) powr (8 / 10000)) * 4"
proof -
  obtain loss_numpys m' calls where
    run: "train_iter example_env (example_opaque (- 1)) 0 example_model = Inr (loss_numpys, m', calls)"
    and n: "cur_nimg m' = 8" and live: "parameters (mapping m') = [4]"
    using example_run_0 by blast
  have ema: "parameters (mapping_ema example_model) = [0]" "cur_nimg example_model = 0"
    "ema_rampup example_model = None" "ema_kimg example_model = 10"
    by (simp_all add: eval_defs)
  have "\<forall>i < min (length (parameters (mapping_ema example_model))) (length (parameters (mapping m'))).
          parameters (mapping_ema m') ! i
            = (1 / 2) powr (8 / 10000) * parameters (mapping_ema example_model) ! i
              + (1 - (1 / 2) powr (8 / 10000)) * parameters (mapping m') ! i"
    using ema_update_formula[OF run, of 8 10000 "(1 / 2) powr (8 / 10000)"] n ema
    by simp
  then have "parameters (mapping_ema m') ! 0
         = (1 / 2) powr (8 / 10000) * 0 + (1 - (1 / 2) powr (8 / 10000)) * 4"
    using ema live by simp
  with run show ?thesis by blast
qed

section \<open>The augmentation strength stays non-negative\<close>

text \<open>
  Claim C6. The augmentation strength is the tensor \<open>p\<close> of the augmentation pipe. Over
  any number of training iterations, with any files on disk, any opaque results (so any
  contents of the sign buffer) and any batches, a strength that starts at a value
  \<open>\<ge> 0\<close> is \<open>\<ge> 0\<close> after the iterations: an iteration in which the controller
  does not fire leaves it as it is, one in which it fires sets it to
  \<open>max(0, p + adjust)\<close>. Every prefix of the iterations is itself such a sequence, so
  the bound holds after each firing.
\<close>

theorem augment_p_never_negative:
  "train_in_iter steps m = Inr m' \<Longrightarrow> augment_pipe m = Some p \<Longrightarrow> 0 \<le> p
     \<Longrightarrow> \<exists>p'. augment_pipe m' = Some p' \<and> 0 \<le> p'"
proof (induction steps arbitrary: m p)
  case Nil
  then show ?case by simp
next
  case (Cons step steps)
  obtain ev orc data where step: "step = (ev, orc, data)" by (cases step) auto
  from Cons.prems(1) obtain outputs m1 calls where
    it: "train_iter ev orc 0 (setup_input m data) = Inr (outputs, m1, calls)"
    and rest: "train_in_iter steps m1 = Inr m'"
    by (auto simp: step split: sum.splits)
  have "augment_pipe (setup_input m data) = Some p"
    using Cons.prems(2) by (simp add: setup_input_def)
  from train_iter_augment_pipe[OF it this Cons.prems(3)]
  obtain p1 where "augment_pipe m1 = Some p1" "0 \<le> p1" by blast
  from Cons.IH[OF rest this] show ?case .
qed

text \<open>
  Two iterations of the example: the real logits are all positive in the first (the
  strength rises from 0) and all negative in the second (it falls back to the floor).
\<close>

theorem augment_p_never_negative_witness:
  "\<exists>m' p'. train_in_iter [(example_env, example_opaque 1, example_batch),
                           (example_env, example_opaque (- 1), example_batch)]
              (StyleGANv2ADAModel example_kwargs) = Inr m'
           \<and> augment_pipe m' = Some p' \<and> 0 \<le> p'"
proof -
  obtain m' where
    run: "train_in_iter [(example_env, example_opaque 1, example_batch),
                         (example_env, example_opaque (- 1), example_batch)]
            (StyleGANv2ADAModel example_kwargs) = Inr m'"
    using example_two_iterations by blast
  have "augment_pipe (StyleGANv2ADAModel example_kwargs) = Some 0"
    by (simp add: StyleGANv2ADAModel_def example_kwargs_def)
  from augment_p_never_negative[OF run this] run show ?thesis by auto
qed

section \<open>The direction of the adjustment\<close>

text \<open>
  Claim C7, amended. Let the controller fire: it is enabled (\<open>adjust_p\<close> and an
  augmentation pipe), the batch counter, already incremented for this iteration, is a
  multiple of \<open>ada_interval\<close>, and the block completes. Let \<open>mean\<close> be the mean of the
  buffered signs, \<open>target\<close> the configured target and
  \<open>step = (batch_size * ada_interval) / (ada_kimg * 1000)\<close>, positive, and let the
  strength \<open>p\<close> be \<open>\<ge> 0\<close>. Then the sign buffer is cleared, and the strength becomes
  \<open>p + step\<close>, strictly larger, if \<open>mean > target\<close>; it becomes \<open>max(0, p - step)\<close>
  if \<open>mean < target\<close>, which is never larger than \<open>p\<close> and strictly smaller when
  \<open>p > 0\<close>; it stays \<open>p\<close> if \<open>mean = target\<close>.
\<close>

theorem ada_adjustment:
  assumes ran: "ada_heuristic m dic2 batch_size = Inr m'"
    and enabled: "adjust_p m" "augment_pipe m = Some p"
    and multiple: "batch_idx m mod ada_interval m = 0"
    and target: "ada_target m = Some target"
    and mean: "mean = sum_list (concat (Loss_signs_real m))
                        / real (length (concat (Loss_signs_real m)))"
    and step: "step = real batch_size * real_of_int (ada_interval m) / (ada_kimg m * 1000)"
    and pos: "0 < step" and p0: "0 \<le> p"
  shows "Loss_signs_real m' = []
       \<and> (target < mean \<longrightarrow> augment_pipe m' = Some (p + step) \<and> p < p + step)
       \<and> (mean < target \<longrightarrow> augment_pipe m' = Some (max 0 (p - step))
                              \<and> max 0 (p - step) \<le> p \<and> (0 < p \<longrightarrow> max 0 (p - step) < p))
       \<and> (mean = target \<longrightarrow> augment_pipe m' = Some p)"
proof -
  from ada_heuristic_fired[OF ran enabled multiple] target
  have m': "m' = m\<lparr>augment_pipe := Some (max (p + sgn (mean - target)
                                     * (real batch_size * real_of_int (ada_interval m))
                                     / (ada_kimg m * 1000)) 0),
                    Loss_signs_real := []\<rparr>"
    by (auto simp: mean)
  have ap: "augment_pipe m' = Some (max (p + sgn (mean - target) * step) 0)"
    unfolding m' step by simp
  have up: "target < mean \<Longrightarrow> augment_pipe m' = Some (p + step)"
    using pos p0 by (simp add: ap max_def)
  have down: "mean < target \<Longrightarrow> augment_pipe m' = Some (max 0 (p - step))"
    by (simp add: ap max.commute)
  have same: "mean = target \<Longrightarrow> augment_pipe m' = Some p"
    using p0 by (simp add: ap max_def)
  show ?thesis using up down same pos p0 by (auto simp: m')
qed

text \<open>
  The controller after the first iteration of the example with positive real logits:
  the mean 1 exceeds the target 0.6 and the strength rises from 0 by the step 8 / 500000.
\<close>

theorem ada_adjustment_witness:
  "ada_heuristic (example_before_ada 1) (Some example_npz) 8
     = Inr ((example_before_ada 1)\<lparr>augment_pipe := Some (1 / 62500), Loss_signs_real := []\<rparr>)
   \<and> augment_pipe ((example_before_ada 1)\<lparr>augment_pipe := Some (1 / 62500), Loss_signs_real := []\<rparr>)
       = Some (0 + 1 / 62500)
   \<and> (0::real) < 0 + 1 / 62500"
proof -
  have ran: "ada_heuristic (example_before_ada 1) (Some example_npz) 8
     = Inr ((example_before_ada 1)\<lparr>augment_pipe := Some (1 / 62500), Loss_signs_real := []\<rparr>)"
    by (simp add: example_before_ada_def eval_defs)
  have "augment_pipe ((example_before_ada 1)\<lparr>augment_pipe := Some (1 / 62500), Loss_signs_real := []\<rparr>)
          = Some (0 + 1 / 62500) \<and> (0::real) < 0 + 1 / 62500"
    using ada_adjustment[OF ran, of 0 "6 / 10" 1 "1 / 62500"]
    by (simp add: example_before_ada_def eval_defs)
  with ran show ?thesis by simp
qed

text \<open>
  Claim C7 as stated fails at the floor: with negative real logits the mean -1 is below the
  target 0.6, the controller fires, and the strength, 0 before, is 0 afterwards. It has
  not strictly decreased.
\<close>

theorem ada_decrease_counterexample:
  "adjust_p (example_before_ada (- 1))
   \<and> augment_pipe (example_before_ada (- 1)) = Some 0
   \<and> batch_idx (example_before_ada (- 1)) mod ada_interval (example_before_ada (- 1)) = 0
   \<and> ada_target (example_before_ada (- 1)) = Some (6 / 10)
   \<and> sum_list (concat (Loss_signs_real (example_before_ada (- 1))))
        / real (length (concat (Loss_signs_real (example_before_ada (- 1))))) = - 1
   \<and> ada_heuristic (example_before_ada (- 1)) (Some example_npz) 8
        = Inr ((example_before_ada (- 1))\<lparr>augment_pipe := Some 0, Loss_signs_real := []\<rparr>)"
  by (simp add: example_before_ada_def eval_defs)

section \<open>The end-to-end scenario\<close>

text \<open>
  Claim C8 says that one call of \<open>train_iter\<close> on a batch of \<open>N\<close> real images advances
  \<open>cur_nimg\<close> by exactly \<open>N\<close> and returns the losses. In the scenario of the spec
  (8 images, the default four phases, \<open>c_dim = 0\<close>, \<open>z_dim = 4\<close>, rank 0) the call
  raises when no reference file is on disk; and with a reference file recorded for 4
  images the call completes and \<open>cur_nimg\<close> advances by 4, although the batch passed in
  has 8 images.
\<close>

theorem train_iter_batch_from_reference_file:
  "train_iter \<lparr>files = Map.empty, is_debug = False\<rparr> orc 0 example_model
     = Inl (FileNotFoundError ''batch00000_rank00.npz'')
   \<and> phase_real_img example_batch = 8
   \<and> (\<exists>loss_numpys m' calls.
         train_iter \<lparr>files = (\<lambda>path. Some small_npz), is_debug = False\<rparr> (example_opaque (- 1)) 0
           example_model = Inr (loss_numpys, m', calls)
       \<and> cur_nimg m' = cur_nimg example_model + 4)"
proof -
  have "train_iter \<lparr>files = Map.empty, is_debug = False\<rparr> orc 0 example_model
     = Inl (FileNotFoundError (npz_path False 0 0))"
    by (simp add: train_iter_def example_model_def setup_input_def StyleGANv2ADAModel_def
          load_reference_def)
  moreover have "\<exists>loss_numpys m' calls.
         train_iter \<lparr>files = (\<lambda>path. Some small_npz), is_debug = False\<rparr> (example_opaque (- 1)) 0
           example_model = Inr (loss_numpys, m', calls)
       \<and> cur_nimg m' = cur_nimg example_model + 4"
    by (simp add: eval_defs small_npz_def)
  ultimately show ?thesis by (simp add: npz_path_first example_batch_def)
qed

text \<open>
  What does hold in the scenario, for a call that completes with the four-phase schedule:
  \<open>Gmain\<close> and \<open>Dmain\<close> have interval 1 and are due at every batch index, so
  \<open>loss_Gmain\<close> and \<open>loss_Dgen\<close> are among the returned losses.
\<close>

lemma default_schedule_losses:
  assumes run: "train_iter ev orc rank m = Inr (loss_numpys, m', calls)"
    and inp: "input m = Some inp"
    and ref: "load_reference ev m rank inp = Inr (dic2, batch_size)"
    and pos: "0 < batch_size"
    and noise: "draw_all_gen_z m dic2 batch_size = Inr (length (phases m) * batch_size)"
    and labels: "0 < snd (hd (phases_all_gen_c inp))
                   \<longrightarrow> length (phases m) \<le> length (phases_all_gen_c inp)"
    and sched: "phases m = [\<lparr>name = ''Gmain'', interval = 1\<rparr>, \<lparr>name = ''Greg'', interval = k\<rparr>,
                            \<lparr>name = ''Dmain'', interval = 1\<rparr>, \<lparr>name = ''Dreg'', interval = j\<rparr>]"
  shows "{''loss_Gmain'', ''loss_Dgen''} \<subseteq> dom loss_numpys"
  unfolding train_iter_completed(3)[OF run inp ref pos noise labels]
  by (auto simp: sched due_def loss_names_def do_Gmain_def do_Dmain_def)

section \<open>The EMA update at the extremes of the blend factor\<close>

text \<open>
  Claim C9. With blend factor 1 the update \<open>p.lerp(p_ema, beta)\<close> returns the old EMA
  value and the whole EMA parameter list is left as it was; with blend factor 0 it returns
  the live value, so every EMA parameter that has a live partner becomes that partner
  (all of them when the two lists have the same length, and EMA entries beyond the live
  list keep their value).
\<close>

theorem ema_update_extremes:
  "lerp p p_ema 1 = p_ema
   \<and> lerp p p_ema 0 = p
   \<and> blend_parameters 1 ema live = ema
   \<and> blend_parameters 0 ema live = take (length ema) live @ drop (length live) ema"
  by (simp add: lerp_def blend_parameters_one blend_parameters_zero)

section \<open>The reference archive\<close>

text \<open>
  Claim C10. Take an object built by the constructor, after any number of completed
  training iterations (possibly none), and the next batch. The constructor has set
  \<open>align_grad\<close> and no iteration clears it, so \<open>train_iter\<close> opens the file
  \<open>'batch%.5d_rank%.2d.npz' % (batch_idx, rank)\<close> (under \<open>../\<close> when a debugger is
  tracing). If the file is absent the call raises \<open>FileNotFoundError\<close>. If the call
  completes, the file exists and holds \<open>phase_real_img\<close>, whose number of images, not
  that of the incoming batch, is what \<open>cur_nimg\<close> advances by; it holds \<open>w_avg\<close>,
  holds \<open>all_gen_z\<close> when \<open>z_dim > 0\<close>, holds every key that \<open>accumulate_gradients\<close>
  reads for each phase it was called for, and holds the two keys of the augmentation
  controller when that fires. So an absent file or an absent expected key means that the
  iteration raises instead of completing.
\<close>

theorem reference_archive_required:
  assumes built: "train_in_iter steps (StyleGANv2ADAModel kw) = Inr m"
  shows "align_grad m
       \<and> (files ev (npz_path (is_debug ev) (batch_idx m) rank) = None \<longrightarrow>
            train_iter ev orc rank (setup_input m data)
              = Inl (FileNotFoundError (npz_path (is_debug ev) (batch_idx m) rank)))
       \<and> (\<forall>loss_numpys m' calls.
            train_iter ev orc rank (setup_input m data) = Inr (loss_numpys, m', calls) \<longrightarrow>
            (\<exists>dic2 n.
               files ev (npz_path (is_debug ev) (batch_idx m) rank) = Some dic2
             \<and> dic2 ''phase_real_img'' = Some n
             \<and> cur_nimg m' = cur_nimg m + int n
             \<and> ''w_avg'' \<in> dom dic2
             \<and> (0 < z_dim m \<longrightarrow> ''all_gen_z'' \<in> dom dic2)
             \<and> (\<forall>nm gain sync. Accumulate nm gain sync \<in> set calls
                    \<longrightarrow> set (phase_keys m nm) \<subseteq> dom dic2)
             \<and> (adjust_p m \<and> augment_pipe m \<noteq> None \<and> (batch_idx m + 1) mod ada_interval m = 0
                    \<longrightarrow> {''augment_pipe_p'', ''aaaaaaaaaa1''} \<subseteq> dom dic2)))"
proof -
  define M where "M = setup_input m data"
  have al: "align_grad m"
    using train_in_iter_align_grad[OF built] by (simp add: StyleGANv2ADAModel_def)
  then have alM: "align_grad M" by (simp add: M_def setup_input_def)
  have M: "batch_idx M = batch_idx m" "cur_nimg M = cur_nimg m" "z_dim M = z_dim m"
    "adjust_p M = adjust_p m" "augment_pipe M = augment_pipe m" "ada_interval M = ada_interval m"
    "input M = Some data" "phase_keys M = phase_keys m"
    by (simp_all add: M_def setup_input_def phase_keys_def do_Gpl_def do_Dr1_def fun_eq_iff)
  have absent: "train_iter ev orc rank (setup_input m data)
                  = Inl (FileNotFoundError (npz_path (is_debug ev) (batch_idx m) rank))"
    if "files ev (npz_path (is_debug ev) (batch_idx m) rank) = None"
    using that al by (simp add: train_iter_def setup_input_def load_reference_def)
  have present: "\<exists>dic2 n.
               files ev (npz_path (is_debug ev) (batch_idx m) rank) = Some dic2
             \<and> dic2 ''phase_real_img'' = Some n
             \<and> cur_nimg m' = cur_nimg m + int n
             \<and> ''w_avg'' \<in> dom dic2
             \<and> (0 < z_dim m \<longrightarrow> ''all_gen_z'' \<in> dom dic2)
             \<and> (\<forall>nm gain sync. Accumulate nm gain sync \<in> set calls
                    \<longrightarrow> set (phase_keys m nm) \<subseteq> dom dic2)
             \<and> (adjust_p m \<and> augment_pipe m \<noteq> None \<and> (batch_idx m + 1) mod ada_interval m = 0
                    \<longrightarrow> {''augment_pipe_p'', ''aaaaaaaaaa1''} \<subseteq> dom dic2)"
    if completed: "train_iter ev orc rank (setup_input m data) = Inr (loss_numpys, m', calls)"
    for loss_numpys m' calls
  proof -
    from completed have run: "train_iter ev orc rank M = Inr (loss_numpys, m', calls)"
      by (simp add: M_def)
    from run M(7) obtain dic2 bs zrows imgs rcs zs m1 where
      ref: "load_reference ev M rank data = Inr (dic2, bs)"
      and noise: "draw_all_gen_z M dic2 bs = Inr zrows"
      and ex: "execute_phases orc dic2 bs imgs rcs zs (M, Map.empty, []) = Inr (m1, loss_numpys, calls)"
      and w: "align_read (advance_counters (update_ema m1 bs) bs) dic2 [''w_avg''] = Inr ()"
      and ada: "ada_heuristic (advance_counters (update_ema m1 bs) bs) dic2 bs = Inr m'"
      unfolding train_iter_Inr_iff by auto
    define m3 where "m3 = advance_counters (update_ema m1 bs) bs"
    from ref alM obtain d where
      fl: "files ev (npz_path (is_debug ev) (batch_idx m) rank) = Some d"
      and img: "d ''phase_real_img'' = Some bs" and dic2: "dic2 = Some d"
      by (auto simp: load_reference_align M)
    note s = execute_phases_settings[OF ex, unfolded same_settings_def]
    have m3: "align_grad m3" "cur_nimg m3 = cur_nimg m + int bs" "batch_idx m3 = batch_idx m + 1"
      "adjust_p m3 = adjust_p m" "augment_pipe m3 = augment_pipe m" "ada_interval m3 = ada_interval m"
      using s alM M by (simp_all add: m3_def advance_counters_def update_ema_def Let_def)
    have n: "cur_nimg m' = cur_nimg m + int bs"
      using ada_heuristic_rest[OF ada] m3(2) by (simp add: m3_def)
    have wavg: "''w_avg'' \<in> dom d"
      using w m3(1) by (simp add: m3_def[symmetric] dic2 align_read_Some)
    have z: "0 < z_dim m \<Longrightarrow> ''all_gen_z'' \<in> dom d"
      using noise alM by (auto simp: draw_all_gen_z_def dic2_get_def dic2 M split: option.splits)
    have "keys_read d M calls"
      using ex[unfolded dic2] alM by (rule execute_phases_keys) (simp add: keys_read_def)
    then have keys: "\<forall>nm gain sync. Accumulate nm gain sync \<in> set calls
                       \<longrightarrow> set (phase_keys m nm) \<subseteq> dom d"
      by (simp add: keys_read_def M)
    have adak: "{''augment_pipe_p'', ''aaaaaaaaaa1''} \<subseteq> dom d"
      if "adjust_p m \<and> augment_pipe m \<noteq> None \<and> (batch_idx m + 1) mod ada_interval m = 0"
    proof -
      from that obtain p where "augment_pipe m3 = Some p" by (auto simp: m3)
      from ada_heuristic_fired[OF ada[folded m3_def] _ this] that
      have "align_read m3 dic2 [''augment_pipe_p'', ''aaaaaaaaaa1''] = Inr ()"
        by (auto simp: m3)
      then show ?thesis using m3(1) by (simp add: dic2 align_read_Some)
    qed
    show ?thesis using fl img n wavg z keys adak by blast
  qed
  show ?thesis using al absent present by blast
qed

text \<open>
  The first iteration of the example on a fresh object, rank 0: without files the call
  raises for \<open>batch00000_rank00.npz\<close>; with the archive it completes.
\<close>

theorem reference_archive_required_witness:
  "train_iter \<lparr>files = Map.empty, is_debug = False\<rparr> (example_opaque (- 1)) 0 example_model
     = Inl (FileNotFoundError ''batch00000_rank00.npz'')
   \<and> (\<exists>loss_numpys m' calls dic2.
         train_iter example_env (example_opaque (- 1)) 0 example_model
           = Inr (loss_numpys, m', calls)
       \<and> files example_env ''batch00000_rank00.npz'' = Some dic2
       \<and> dic2 ''phase_real_img'' = Some 8
       \<and> cur_nimg m' = 8
       \<and> ''w_avg'' \<in> dom dic2
       \<and> set (phase_keys example_model ''Gmain'') \<subseteq> dom dic2)"
proof -
  have built: "train_in_iter [] (StyleGANv2ADAModel example_kwargs)
                 = Inr (StyleGANv2ADAModel example_kwargs)"
    by simp
  have b0: "batch_idx (StyleGANv2ADAModel example_kwargs) = 0"
    "cur_nimg (StyleGANv2ADAModel example_kwargs) = 0"
    by (simp_all add: StyleGANv2ADAModel_def)
  have keys: "phase_keys example_model = phase_keys (StyleGANv2ADAModel example_kwargs)"
    by (simp add: example_model_def setup_input_def phase_keys_def do_Gpl_def do_Dr1_def fun_eq_iff)
  have 1: "train_iter \<lparr>files = Map.empty, is_debug = False\<rparr> (example_opaque (- 1)) 0 example_model
             = Inl (FileNotFoundError ''batch00000_rank00.npz'')"
    using reference_archive_required[OF built,
            of "\<lparr>files = Map.empty, is_debug = False\<rparr>" 0 "example_opaque (- 1)" example_batch]
    by (simp add: b0 npz_path_first example_model_def)
  obtain loss_numpys m' calls where
    run: "train_iter example_env (example_opaque (- 1)) 0 example_model = Inr (loss_numpys, m', calls)"
    and acc: "Accumulate ''Gmain'' 1 True \<in> set calls"
    using example_run_0 by blast
  from reference_archive_required[OF built, of example_env 0 "example_opaque (- 1)" example_batch]
    run
  obtain dic2 n where
    "files example_env ''batch00000_rank00.npz'' = Some dic2"
    "dic2 ''phase_real_img'' = Some n" "cur_nimg m' = int n" "''w_avg'' \<in> dom dic2"
    "\<forall>nm gain sync. Accumulate nm gain sync \<in> set calls
        \<longrightarrow> set (phase_keys (StyleGANv2ADAModel example_kwargs) nm) \<subseteq> dom dic2"
    by (auto simp: b0 npz_path_first example_model_def example_env_def)
  moreover from this have "n = 8" by (auto simp: example_env_def example_npz_def)
  ultimately show ?thesis using 1 run acc keys by auto
qed

end
